theory Spec2Isabelle
  imports Main "HOL-Library.AList"
begin

section \<open>Data model\<close>

text \<open>
  Values decoded from JSON, as Python holds them. \<open>JNull\<close> is Python's \<open>None\<close>: the
  checkpoint variable \<open>state\<close> of \<open>persist_messages\<close> starts as \<open>None\<close>, is reset to
  \<open>None\<close> by every RECORD, and \<open>config.get\<close> returns \<open>None\<close> for an absent option.
\<close>

datatype json =
    JNull
  | JBool bool
  | JNum int
  | JStr string
  | JArr "json list"
  | JObj "(string \<times> json) list"

text \<open>
  The dictionaries that \<open>singer.parse_message(message).asdict()\<close> yields. The field
  mapping of a RECORD is a Python dict, modelled by the list of its items in insertion
  order (so its keys are distinct). \<open>OTHER\<close> is a decoded message of any other type,
  carrying the type name.
\<close>

datatype message =
    SCHEMA string json json
  | RECORD string "(string \<times> json) list"
  | STATE json
  | OTHER string

text \<open>
  One input line: either the decoder returns a message, or it raises
  \<open>json.decoder.JSONDecodeError\<close>, which the loop logs and re-raises.
\<close>

datatype line = Decoded message | Malformed

datatype error =
    JSONDecodeError
  | RecordBeforeSchema string
  | KeyError string
  | ValidationError string
  | StopIteration
  | ConnectError
  | OpenSftpError
  | FileNotFoundError string
  | PutError string

text \<open>
  The file system maps a path to the rows of the delimited file found there, as
  \<open>csv.reader\<close> and \<open>csv.DictWriter\<close> with the configured delimiter and quote
  character read and write them; a file of size zero has no rows, and a path that is no
  file maps to \<open>None\<close>. Paths are the strings the program passes to the system, so two
  spellings of one file are two paths here. Opening and writing a file never fail in
  this model.
\<close>

type_synonym filesystem = "string \<rightharpoonup> string list list"

record config =
  delimiter :: string
  quotechar :: string
  destination_path :: string
  fixed_headers :: "(string \<rightharpoonup> string list) option"
  sftp_host :: json
  sftp_username :: json
  sftp_password :: json
  sftp_port :: json
  sftp_public_key :: json
  sftp_public_key_format :: json

text \<open>
  What the run takes from outside the program: the timestamp token, the home
  directories \<open>os.path.expanduser\<close> looks up (the empty name is the current user),
  Python's \<open>str\<close> and \<open>json.dumps\<close>, and the answer of
  \<open>Draft4Validator(schema).validate(record)\<close>.
\<close>

record env =
  now :: string
  home :: "string \<Rightarrow> string option"
  py_str :: "json \<Rightarrow> string"
  json_dumps :: "json \<Rightarrow> string"
  validate :: "json \<Rightarrow> (string \<times> json) list \<Rightarrow> bool"

text \<open>The remote host: which calls of the session raise.\<close>

record remote =
  connect_fails :: bool
  open_sftp_fails :: bool
  put_fails :: "string \<Rightarrow> bool"

text \<open>
  Calls on the SSH client and the SFTP channel, in order; the flag of a call tells
  whether it returned normally.
\<close>

datatype net_event =
    Connect json json json bool
  | OpenSftp bool
  | Put string string bool
  | CloseSftp
  | CloseClient

datatype out_event = Write string | Flush

text \<open>The local variables of \<open>persist_messages\<close>, together with the file system.\<close>

record loop_state =
  state :: json
  schemas :: "string \<rightharpoonup> json"
  stream_2_filenames :: "(string \<times> string) list"
  key_properties :: "string \<rightharpoonup> json"
  headers :: "string \<rightharpoonup> string list"
  validators :: "string \<rightharpoonup> json"
  files :: filesystem

record outcome =
  final_files :: filesystem
  network :: "net_event list"
  stdout :: "out_event list"
  exit_error :: "error option"

section \<open>The program\<close>

text \<open>\<open>emit_state\<close>, lines 23 to 28: one line and a flush, unless the state is \<open>None\<close>.\<close>

definition emit_state :: "env \<Rightarrow> json \<Rightarrow> out_event list" where
  "emit_state ev st =
     (if st \<noteq> JNull then [Write (json_dumps ev st @ [CHR 0x0A]), Flush] else [])"

text \<open>\<open>os.path.join\<close> of two components and \<open>os.path.expanduser\<close> (POSIX).\<close>

definition join :: "string \<Rightarrow> string \<Rightarrow> string" where
  "join a b =
     (if take 1 b = ''/'' then b
      else if a = [] \<or> take 1 (rev a) = ''/'' then a @ b
      else a @ ''/'' @ b)"

definition expanduser :: "(string \<Rightarrow> string option) \<Rightarrow> string \<Rightarrow> string" where
  "expanduser hm path =
     (if take 1 path \<noteq> ''~'' then path
      else
        let name = takeWhile (\<lambda>c. c \<noteq> CHR ''/'') (tl path);
            rest = dropWhile (\<lambda>c. c \<noteq> CHR ''/'') (tl path)
        in case hm name of
             None \<Rightarrow> path
           | Some userhome \<Rightarrow>
               let p = rev (dropWhile (\<lambda>c. c = CHR ''/'') (rev userhome)) @ rest
               in if p = [] then ''/'' else p)"

text \<open>Line 69: the name recorded in \<open>stream_2_filenames\<close>; line 71: the path opened.\<close>

definition stream_filename :: "env \<Rightarrow> string \<Rightarrow> string" where
  "stream_filename ev stream = stream @ ''-'' @ now ev @ ''.csv''"

definition local_path :: "config \<Rightarrow> env \<Rightarrow> string \<Rightarrow> string" where
  "local_path cfg ev stream =
     expanduser (home ev) (join (destination_path cfg) (stream_filename ev stream))"

text \<open>Line 72: \<open>(not os.path.isfile(filename)) or os.stat(filename).st_size == 0\<close>.\<close>

definition file_is_empty :: "filesystem \<Rightarrow> string \<Rightarrow> bool" where
  "file_is_empty fs path = (case fs path of None \<Rightarrow> True | Some rows \<Rightarrow> rows = [])"

definition file_rows :: "filesystem \<Rightarrow> string \<Rightarrow> string list list" where
  "file_rows fs path = (case fs path of None \<Rightarrow> [] | Some rows \<Rightarrow> rows)"

text \<open>
  The cell the writer produces for one column: \<open>rowdict.get(key, '')\<close>, where the
  writer renders \<open>None\<close> as the empty field, a string as itself and any other value
  through \<open>str\<close>.
\<close>

definition cell :: "env \<Rightarrow> (string \<times> json) list \<Rightarrow> string \<Rightarrow> string" where
  "cell ev rec k =
     (case map_of rec k of
        None \<Rightarrow> []
      | Some JNull \<Rightarrow> []
      | Some (JStr s) \<Rightarrow> s
      | Some v \<Rightarrow> py_str ev v)"

definition record_row :: "env \<Rightarrow> string list \<Rightarrow> (string \<times> json) list \<Rightarrow> string list" where
  "record_row ev fieldnames rec = map (cell ev rec) fieldnames"

text \<open>Line 77: \<open>fixed_headers is not None and o['stream'] in fixed_headers\<close>.\<close>

definition fixed_for :: "config \<Rightarrow> string \<Rightarrow> string list option" where
  "fixed_for cfg stream = (case fixed_headers cfg of None \<Rightarrow> None | Some fh \<Rightarrow> fh stream)"

text \<open>Lines 77 to 89: the \<open>headers\<close> dictionary after the header branch.\<close>

definition resolve_headers ::
  "config \<Rightarrow> loop_state \<Rightarrow> string \<Rightarrow> (string \<times> json) list \<Rightarrow> string \<Rightarrow>
   error + (string \<rightharpoonup> string list)" where
  "resolve_headers cfg st stream rec path =
     (case fixed_for cfg stream of
        Some fixed \<Rightarrow>
          (if headers st stream = None then Inr ((headers st)(stream \<mapsto> fixed))
           else Inr (headers st))
      | None \<Rightarrow>
          (if headers st stream = None \<and> \<not> file_is_empty (files st) path then
             (case file_rows (files st) path of
                [] \<Rightarrow> Inl StopIteration
              | first_line # _ \<Rightarrow>
                  Inr ((headers st)(stream \<mapsto>
                        (if first_line \<noteq> [] then first_line else map fst rec))))
           else Inr ((headers st)(stream \<mapsto> map fst rec))))"

text \<open>
  Lines 62 to 102: the RECORD branch of the loop. The record is written as it is
  decoded: line 75 takes \<open>o['record']\<close>, the call of \<open>flatten\<close> being commented out.
\<close>

definition persist_record ::
  "config \<Rightarrow> env \<Rightarrow> loop_state \<Rightarrow> string \<Rightarrow> (string \<times> json) list \<Rightarrow> error + loop_state" where
  "persist_record cfg ev st stream rec =
     (if schemas st stream = None then Inl (RecordBeforeSchema stream)
      else case validators st stream of
        None \<Rightarrow> Inl (KeyError stream)
      | Some schema \<Rightarrow>
          if \<not> validate ev schema rec then Inl (ValidationError stream)
          else
            let path = local_path cfg ev stream in
            (case resolve_headers cfg st stream rec path of
              Inl e \<Rightarrow> Inl e
            | Inr hdrs \<Rightarrow>
                (case hdrs stream of
                   None \<Rightarrow> Inl (KeyError stream)
                 | Some fieldnames \<Rightarrow>
                     let manifest =
                           AList.update stream (stream_filename ev stream)
                             (stream_2_filenames st);
                         written =
                           file_rows (files st) path
                           @ (if file_is_empty (files st) path then [fieldnames] else [])
                           @ [record_row ev fieldnames rec];
                         disk = (files st)(path \<mapsto> written)
                     in Inr (st\<lparr>state := JNull, stream_2_filenames := manifest,
                                headers := hdrs, files := disk\<rparr>))))"

text \<open>Lines 56 to 113: one iteration of the loop.\<close>

fun handle_message :: "config \<Rightarrow> env \<Rightarrow> loop_state \<Rightarrow> line \<Rightarrow> error + loop_state" where
  "handle_message cfg ev st Malformed = Inl JSONDecodeError"
| "handle_message cfg ev st (Decoded (RECORD stream rec)) = persist_record cfg ev st stream rec"
| "handle_message cfg ev st (Decoded (STATE v)) = Inr (st\<lparr>state := v\<rparr>)"
| "handle_message cfg ev st (Decoded (SCHEMA stream schema kp)) =
     Inr (st\<lparr>schemas := (schemas st)(stream \<mapsto> schema),
             validators := (validators st)(stream \<mapsto> schema),
             key_properties := (key_properties st)(stream \<mapsto> kp)\<rparr>)"
| "handle_message cfg ev st (Decoded (OTHER t)) = Inr st"

text \<open>
  The loop of line 55. An exception leaves the loop with the state reached so far, whose
  file system is what the failed run leaves on disk.
\<close>

fun persist_loop ::
  "config \<Rightarrow> env \<Rightarrow> loop_state \<Rightarrow> line list \<Rightarrow> loop_state \<times> error option" where
  "persist_loop cfg ev st [] = (st, None)"
| "persist_loop cfg ev st (m # ms) =
     (case handle_message cfg ev st m of
        Inl e \<Rightarrow> (st, Some e)
      | Inr st' \<Rightarrow> persist_loop cfg ev st' ms)"

text \<open>Lines 46 to 51.\<close>

definition initial :: "filesystem \<Rightarrow> loop_state" where
  "initial fs =
     \<lparr>state = JNull, schemas = Map.empty, stream_2_filenames = [],
      key_properties = Map.empty, headers = Map.empty, validators = Map.empty,
      files = fs\<rparr>"

text \<open>Python's truth value of a decoded JSON value.\<close>

fun truthy :: "json \<Rightarrow> bool" where
  "truthy JNull = False"
| "truthy (JBool b) = b"
| "truthy (JNum n) = (n \<noteq> 0)"
| "truthy (JStr s) = (s \<noteq> [])"
| "truthy (JArr xs) = (xs \<noteq> [])"
| "truthy (JObj kvs) = (kvs \<noteq> [])"

text \<open>Line 114.\<close>

definition transfer_enabled :: "config \<Rightarrow> bool" where
  "transfer_enabled cfg =
     (truthy (sftp_host cfg) \<and> truthy (sftp_password cfg) \<and> truthy (sftp_username cfg)
      \<and> truthy (sftp_public_key cfg) \<and> truthy (sftp_public_key_format cfg))"

text \<open>
  Lines 124 to 126: \<open>sftp.put(filename, filename)\<close> for each value of the manifest. The
  call raises when the local path is no file or when the remote host refuses.
\<close>

fun put_all :: "remote \<Rightarrow> filesystem \<Rightarrow> string list \<Rightarrow> net_event list \<times> error option" where
  "put_all rm fs [] = ([], None)"
| "put_all rm fs (filename # rest) =
     (if fs filename = None then ([Put filename filename False], Some (FileNotFoundError filename))
      else if put_fails rm filename then ([Put filename filename False], Some (PutError filename))
      else case put_all rm fs rest of (evs, r) \<Rightarrow> (Put filename filename True # evs, r))"

text \<open>Lines 115 to 133: the session, with its \<open>except\<close> and \<open>else\<close> clauses.\<close>

definition transfer ::
  "config \<Rightarrow> remote \<Rightarrow> filesystem \<Rightarrow> string list \<Rightarrow> net_event list \<times> error option" where
  "transfer cfg rm fs filenames =
     (if connect_fails rm then
        ([Connect (sftp_host cfg) (sftp_username cfg) (sftp_password cfg) False, CloseClient],
         Some ConnectError)
      else if open_sftp_fails rm then
        ([Connect (sftp_host cfg) (sftp_username cfg) (sftp_password cfg) True,
          OpenSftp False, CloseClient],
         Some OpenSftpError)
      else case put_all rm fs filenames of (evs, r) \<Rightarrow>
        ([Connect (sftp_host cfg) (sftp_username cfg) (sftp_password cfg) True, OpenSftp True]
         @ evs @ [CloseSftp, CloseClient], r))"

text \<open>
  \<open>persist_messages\<close>, lines 42 to 134: the files and the session calls it leaves, and
  the state it returns or the exception it raises.
\<close>

definition persist_messages ::
  "config \<Rightarrow> env \<Rightarrow> remote \<Rightarrow> filesystem \<Rightarrow> line list \<Rightarrow>
   filesystem \<times> net_event list \<times> (error + json)" where
  "persist_messages cfg ev rm fs messages =
     (case persist_loop cfg ev (initial fs) messages of
        (st, Some e) \<Rightarrow> (files st, [], Inl e)
      | (st, None) \<Rightarrow>
          if transfer_enabled cfg then
            (case transfer cfg rm (files st) (map snd (stream_2_filenames st)) of
               (evs, Some e) \<Rightarrow> (files st, evs, Inl e)
             | (evs, None) \<Rightarrow> (files st, evs, Inr (state st)))
          else (files st, [], Inr (state st)))"

text \<open>\<open>main\<close>, lines 173 to 188: \<open>emit_state\<close> runs only when \<open>persist_messages\<close> returns.\<close>

definition main :: "config \<Rightarrow> env \<Rightarrow> remote \<Rightarrow> filesystem \<Rightarrow> line list \<Rightarrow> outcome" where
  "main cfg ev rm fs messages =
     (case persist_messages cfg ev rm fs messages of
        (fs', evs, Inl e) \<Rightarrow>
          \<lparr>final_files = fs', network = evs, stdout = [], exit_error = Some e\<rparr>
      | (fs', evs, Inr st) \<Rightarrow>
          \<lparr>final_files = fs', network = evs, stdout = emit_state ev st, exit_error = None\<rparr>)"

section \<open>The checkpoint, in the words of the specification\<close>

text \<open>
  The messages that touch the checkpoint are the STATE and the RECORD messages. A
  checkpoint is pending at end-of-stream when the last of them is a STATE message, which
  is to say that a STATE message was processed after the last RECORD, or that STATE
  messages occurred and no RECORD did; the pending value is that message's payload.
\<close>

definition marks :: "line \<Rightarrow> bool" where
  "marks l =
     (case l of Decoded (STATE v) \<Rightarrow> True | Decoded (RECORD s r) \<Rightarrow> True | _ \<Rightarrow> False)"

definition pending_checkpoint :: "line list \<Rightarrow> json option" where
  "pending_checkpoint msgs =
     (case rev (filter marks msgs) of Decoded (STATE v) # _ \<Rightarrow> Some v | _ \<Rightarrow> None)"

text \<open>The effect of one line on the variable \<open>state\<close>, when the line raises nothing.\<close>

definition track :: "json \<Rightarrow> line \<Rightarrow> json" where
  "track s l =
     (case l of Decoded (STATE v) \<Rightarrow> v | Decoded (RECORD x r) \<Rightarrow> JNull | _ \<Rightarrow> s)"

text \<open>A call of the session that raised.\<close>

fun raised :: "net_event \<Rightarrow> bool" where
  "raised (Connect h u p ok) = (\<not> ok)"
| "raised (OpenSftp ok) = (\<not> ok)"
| "raised (Put l r ok) = (\<not> ok)"
| "raised CloseSftp = False"
| "raised CloseClient = False"

section \<open>A concrete environment for the examples\<close>

text \<open>
  Python's \<open>str\<close> of an integer, and \<open>json.dumps\<close> with its default separators, on
  values whose strings need no escaping.
\<close>

fun decimal :: "nat \<Rightarrow> string" where
  "decimal n =
     (if n < 10 then [''0123456789'' ! n]
      else decimal (n div 10) @ [''0123456789'' ! (n mod 10)])"

definition int_str :: "int \<Rightarrow> string" where
  "int_str i = (if i < 0 then ''-'' @ decimal (nat (- i)) else decimal (nat i))"

fun commas :: "string list \<Rightarrow> string" where
  "commas [] = []"
| "commas [x] = x"
| "commas (x # y # ys) = x @ '', '' @ commas (y # ys)"

fun dumps :: "json \<Rightarrow> string" where
  "dumps JNull = ''null''"
| "dumps (JBool b) = (if b then ''true'' else ''false'')"
| "dumps (JNum n) = int_str n"
| "dumps (JStr s) = [CHR 0x22] @ s @ [CHR 0x22]"
| "dumps (JArr xs) = ''['' @ commas (map dumps xs) @ '']''"
| "dumps (JObj kvs) =
     ''{'' @ commas (map (\<lambda>(k, v). [CHR 0x22] @ k @ [CHR 0x22] @ '': '' @ dumps v) kvs) @ ''}''"

definition str_of :: "json \<Rightarrow> string" where
  "str_of v = (case v of JNum n \<Rightarrow> int_str n | JBool b \<Rightarrow> (if b then ''True'' else ''False'')
               | JNull \<Rightarrow> ''None'' | JStr s \<Rightarrow> s | _ \<Rightarrow> dumps v)"

text \<open>
  A run at 2024-01-01 00:00:00 by a user whose home is \<open>/home/u\<close>, every record
  valid; a remote host that accepts every call; the default configuration of \<open>main\<close>
  (no option set), and one with the transfer options set except for the port.
\<close>

definition env0 :: env where
  "env0 = \<lparr>now = ''20240101T000000'',
           home = (\<lambda>u. if u = [] then Some ''/home/u'' else None),
           py_str = str_of, json_dumps = dumps, validate = (\<lambda>schema rec. True)\<rparr>"

definition remote0 :: remote where
  "remote0 = \<lparr>connect_fails = False, open_sftp_fails = False, put_fails = (\<lambda>f. False)\<rparr>"

definition config0 :: config where
  "config0 = \<lparr>delimiter = '','', quotechar = [CHR 0x22], destination_path = [],
              fixed_headers = None, sftp_host = JNull, sftp_username = JNull,
              sftp_password = JNull, sftp_port = JNull, sftp_public_key = JNull,
              sftp_public_key_format = JNull\<rparr>"

definition config_sftp :: config where
  "config_sftp = config0\<lparr>sftp_host := JStr ''files.example.org'', sftp_username := JStr ''u'',
                         sftp_password := JStr ''secret'', sftp_public_key := JStr ''AAAA'',
                         sftp_public_key_format := JStr ''ssh-rsa''\<rparr>"

definition disk0 :: filesystem where
  "disk0 = Map.empty"

text \<open>A remote host that refuses one file.\<close>

definition remote_refusing :: "string \<Rightarrow> remote" where
  "remote_refusing bad =
     \<lparr>connect_fails = False, open_sftp_fails = False, put_fails = (\<lambda>f. f = bad)\<rparr>"

text \<open>
  A configuration that fixes the headers of stream \<open>s\<close>, one that writes under the
  directory \<open>out\<close> with the transfer options set, and a disk on which the file of
  stream \<open>s\<close> already holds the header row \<open>a,b,c\<close>.
\<close>

definition config_fixed :: config where
  "config_fixed = config0\<lparr>fixed_headers := Some [''s'' \<mapsto> [''z'', ''y'', ''x'']]\<rparr>"

definition config_out :: config where
  "config_out = config_sftp\<lparr>destination_path := ''out''\<rparr>"

definition disk_abc :: filesystem where
  "disk_abc = [''s-20240101T000000.csv'' \<mapsto> [[''a'', ''b'', ''c'']]]"

text \<open>A configuration that writes under the directory \<open>/tmp\<close>.\<close>

definition config_tmp :: config where
  "config_tmp = config0\<lparr>destination_path := ''/tmp''\<rparr>"

section \<open>Evaluation and the loop\<close>

lemmas run_simps =
  main_def persist_messages_def initial_def persist_record_def resolve_headers_def
  fixed_for_def local_path_def stream_filename_def join_def expanduser_def
  file_is_empty_def file_rows_def record_row_def cell_def transfer_enabled_def
  transfer_def emit_state_def env0_def remote0_def config0_def config_sftp_def disk0_def
  remote_refusing_def config_fixed_def config_out_def disk_abc_def config_tmp_def
  int_str_def str_of_def Let_def

lemma persist_loop_append:
  "persist_loop cfg ev st (xs @ ys) =
     (case persist_loop cfg ev st xs of
        (st', None) \<Rightarrow> persist_loop cfg ev st' ys
      | (st', Some e) \<Rightarrow> (st', Some e))"
  by (induction xs arbitrary: st) (auto split: sum.splits)

lemma persist_loop_Cons_ok:
  assumes "persist_loop cfg ev st (m # ms) = (st', None)"
  obtains st1 where "handle_message cfg ev st m = Inr st1"
    and "persist_loop cfg ev st1 ms = (st', None)"
  using assms by (auto split: sum.splits)

section \<open>The checkpoint\<close>

lemma persist_record_state:
  "persist_record cfg ev st s r = Inr st' \<Longrightarrow> state st' = JNull"
  by (auto simp: persist_record_def Let_def split: if_splits option.splits sum.splits)

lemma handle_message_state:
  assumes h: "handle_message cfg ev st m = Inr st'"
  shows "state st' = track (state st) m"
proof (cases m)
  case Malformed
  with h show ?thesis by simp
next
  case (Decoded msg)
  show ?thesis
  proof (cases msg)
    case (RECORD s r)
    with Decoded h show ?thesis by (simp add: track_def persist_record_state)
  qed (use Decoded h in \<open>auto simp: track_def\<close>)
qed

lemma persist_loop_state:
  "persist_loop cfg ev st msgs = (st', None) \<Longrightarrow> state st' = foldl track (state st) msgs"
proof (induction msgs arbitrary: st)
  case Nil
  then show ?case by simp
next
  case (Cons m ms)
  from Cons.prems obtain st1 where
    "handle_message cfg ev st m = Inr st1" and "persist_loop cfg ev st1 ms = (st', None)"
    by (rule persist_loop_Cons_ok)
  then show ?case
    using Cons.IH [of st1] handle_message_state [of cfg ev st m st1] by simp
qed

lemma foldl_track:
  "foldl track s msgs =
     (case rev (filter marks msgs) of
        [] \<Rightarrow> s
      | Decoded (STATE v) # _ \<Rightarrow> v
      | _ \<Rightarrow> JNull)"
proof (induction msgs rule: rev_induct)
  case Nil
  then show ?case by simp
next
  case (snoc m ms)
  show ?case
  proof (cases m)
    case Malformed
    then show ?thesis using snoc by (simp add: marks_def track_def)
  next
    case (Decoded msg)
    then show ?thesis using snoc by (cases msg) (simp_all add: marks_def track_def)
  qed
qed

lemma returned_state:
  assumes "persist_loop cfg ev (initial fs) msgs = (st, None)"
  shows "state st = (case pending_checkpoint msgs of None \<Rightarrow> JNull | Some v \<Rightarrow> v)"
proof -
  have "state st = foldl track JNull msgs"
    using persist_loop_state [OF assms] by (simp add: initial_def)
  then show ?thesis
    by (simp add: foldl_track pending_checkpoint_def
             split: list.splits line.splits message.splits)
qed

lemma main_success:
  assumes "exit_error (main cfg ev rm fs msgs) = None"
  shows "\<exists>st. persist_loop cfg ev (initial fs) msgs = (st, None)
            \<and> stdout (main cfg ev rm fs msgs) = emit_state ev (state st)"
  using assms
  by (auto simp: main_def persist_messages_def
           split: prod.splits option.splits sum.splits if_splits)

text \<open>
  C1, as the claim states it, fails: a STATE message whose payload is JSON \<open>null\<close>
  is decoded to \<open>None\<close>, the value \<open>emit_state\<close> takes for "no state". The run of the
  single message STATE \<open>null\<close> ends without error, a STATE message was processed and no
  RECORD ever was, and yet nothing is written to stdout.
\<close>

theorem checkpoint_null_counterexample:
  "exit_error (main config0 env0 remote0 disk0 [Decoded (STATE JNull)]) = None
   \<and> pending_checkpoint [Decoded (STATE JNull)] = Some JNull
   \<and> stdout (main config0 env0 remote0 disk0 [Decoded (STATE JNull)]) = []"
  by (simp add: run_simps pending_checkpoint_def marks_def)

text \<open>
  C1, amended: for every input processed to end-of-stream without fatal error, a
  checkpoint line is emitted iff the last STATE message comes after the last RECORD (or
  STATE messages occurred and no RECORD did) and its payload is not \<open>null\<close>; then stdout
  receives exactly one write, the JSON encoding of that payload followed by a newline,
  and a flush right after it; otherwise stdout receives nothing.
\<close>

theorem checkpoint_line:
  assumes "exit_error (main cfg ev rm fs msgs) = None"
  shows "stdout (main cfg ev rm fs msgs) =
           (case pending_checkpoint msgs of
              None \<Rightarrow> []
            | Some v \<Rightarrow>
                if v = JNull then [] else [Write (json_dumps ev v @ [CHR 0x0A]), Flush])"
proof -
  from main_success [OF assms] obtain st where
    l: "persist_loop cfg ev (initial fs) msgs = (st, None)" and
    o: "stdout (main cfg ev rm fs msgs) = emit_state ev (state st)" by blast
  show ?thesis
    unfolding o returned_state [OF l]
    by (simp add: emit_state_def split: option.splits)
qed

text \<open>
  The two examples of the specification: RECORD then STATE \<open>{"bookmark":42}\<close> gives the
  one line; STATE then RECORD gives none.
\<close>

theorem checkpoint_line_witness:
  "exit_error (main config0 env0 remote0 disk0
     [Decoded (SCHEMA ''s'' (JObj []) (JArr [])),
      Decoded (RECORD ''s'' [(''x'', JNum 1)]),
      Decoded (STATE (JObj [(''bookmark'', JNum 42)]))]) = None
   \<and> stdout (main config0 env0 remote0 disk0
     [Decoded (SCHEMA ''s'' (JObj []) (JArr [])),
      Decoded (RECORD ''s'' [(''x'', JNum 1)]),
      Decoded (STATE (JObj [(''bookmark'', JNum 42)]))])
     = [Write ([CHR 0x7B, CHR 0x22] @ ''bookmark'' @ [CHR 0x22] @ '': 42}'' @ [CHR 0x0A]), Flush]
   \<and> exit_error (main config0 env0 remote0 disk0
     [Decoded (SCHEMA ''s'' (JObj []) (JArr [])),
      Decoded (STATE (JObj [(''bookmark'', JNum 42)])),
      Decoded (RECORD ''s'' [(''x'', JNum 1)])]) = None
   \<and> stdout (main config0 env0 remote0 disk0
     [Decoded (SCHEMA ''s'' (JObj []) (JArr [])),
      Decoded (STATE (JObj [(''bookmark'', JNum 42)])),
      Decoded (RECORD ''s'' [(''x'', JNum 1)])]) = []"
proof -
  have a: "exit_error (main config0 env0 remote0 disk0
     [Decoded (SCHEMA ''s'' (JObj []) (JArr [])),
      Decoded (RECORD ''s'' [(''x'', JNum 1)]),
      Decoded (STATE (JObj [(''bookmark'', JNum 42)]))]) = None"
    by (simp add: run_simps)
  have b: "exit_error (main config0 env0 remote0 disk0
     [Decoded (SCHEMA ''s'' (JObj []) (JArr [])),
      Decoded (STATE (JObj [(''bookmark'', JNum 42)])),
      Decoded (RECORD ''s'' [(''x'', JNum 1)])]) = None"
    by (simp add: run_simps)
  show ?thesis
    using a b checkpoint_line [OF a] checkpoint_line [OF b]
    by (simp add: pending_checkpoint_def marks_def env0_def int_str_def)
qed

section \<open>Records before their schema\<close>

lemma persist_record_schemas:
  "persist_record cfg ev st x r = Inr st' \<Longrightarrow> schemas st' = schemas st"
  by (auto simp: persist_record_def Let_def split: if_splits option.splits sum.splits)

lemma schemas_kept:
  "persist_loop cfg ev st pre = (st', None) \<Longrightarrow>
   \<forall>sch kp. Decoded (SCHEMA s sch kp) \<notin> set pre \<Longrightarrow> schemas st' s = schemas st s"
proof (induction pre arbitrary: st)
  case Nil
  then show ?case by simp
next
  case (Cons m ms)
  from Cons.prems(1) obtain st1 where
    h: "handle_message cfg ev st m = Inr st1" and r: "persist_loop cfg ev st1 ms = (st', None)"
    by (rule persist_loop_Cons_ok)
  have "schemas st1 s = schemas st s"
  proof (cases m)
    case Malformed
    with h show ?thesis by simp
  next
    case (Decoded msg)
    show ?thesis
    proof (cases msg)
      case (SCHEMA x sch kp)
      with Decoded Cons.prems(2) have "x \<noteq> s" by auto
      with SCHEMA Decoded h show ?thesis by auto
    next
      case (RECORD x r)
      with Decoded h show ?thesis by (simp add: persist_record_schemas)
    qed (use Decoded h in auto)
  qed
  moreover have "schemas st' s = schemas st1 s"
    using Cons.IH [OF r] Cons.prems(2) by simp
  ultimately show ?case by simp
qed

text \<open>
  C2: when the run reaches a RECORD for stream \<open>s\<close> and no SCHEMA for \<open>s\<close> was processed
  before it, the run ends there with the record-before-schema error: the files are those
  left by the messages before the record (no row is written for it), nothing after it is
  processed, no transfer takes place and no checkpoint is emitted.
\<close>

theorem record_before_schema:
  assumes "snd (persist_loop cfg ev (initial fs) pre) = None"
    and "\<forall>sch kp. Decoded (SCHEMA s sch kp) \<notin> set pre"
  shows "main cfg ev rm fs (pre @ Decoded (RECORD s r) # post) =
           \<lparr>final_files = files (fst (persist_loop cfg ev (initial fs) pre)),
            network = [], stdout = [], exit_error = Some (RecordBeforeSchema s)\<rparr>"
proof -
  obtain st where l: "persist_loop cfg ev (initial fs) pre = (st, None)"
    using assms(1) by (cases "persist_loop cfg ev (initial fs) pre") simp
  have "schemas st s = None"
    using schemas_kept [OF l assms(2)] by (simp add: initial_def)
  then have "persist_loop cfg ev (initial fs) (pre @ Decoded (RECORD s r) # post) =
               (st, Some (RecordBeforeSchema s))"
    by (simp add: persist_loop_append l persist_record_def)
  then show ?thesis
    by (simp add: main_def persist_messages_def l)
qed

text \<open>
  Stream \<open>t\<close> is declared and written, a checkpoint is pending and the transfer is
  configured; the record of the undeclared stream \<open>s\<close> ends the run. The file of \<open>t\<close> is
  as the first record left it, there is no file for \<open>s\<close>, and the later messages, the
  transfer and the checkpoint are all skipped.
\<close>

theorem record_before_schema_witness:
  "exit_error (main config_sftp env0 remote0 disk0
     ([Decoded (SCHEMA ''t'' (JObj []) (JArr [])), Decoded (RECORD ''t'' [(''x'', JNum 1)]),
       Decoded (STATE (JNum 7))]
      @ Decoded (RECORD ''s'' [(''x'', JNum 1)])
        # [Decoded (SCHEMA ''s'' (JObj []) (JArr [])), Decoded (RECORD ''t'' [(''x'', JNum 2)])]))
     = Some (RecordBeforeSchema ''s'')
   \<and> network (main config_sftp env0 remote0 disk0
     ([Decoded (SCHEMA ''t'' (JObj []) (JArr [])), Decoded (RECORD ''t'' [(''x'', JNum 1)]),
       Decoded (STATE (JNum 7))]
      @ Decoded (RECORD ''s'' [(''x'', JNum 1)])
        # [Decoded (SCHEMA ''s'' (JObj []) (JArr [])), Decoded (RECORD ''t'' [(''x'', JNum 2)])]))
     = []
   \<and> stdout (main config_sftp env0 remote0 disk0
     ([Decoded (SCHEMA ''t'' (JObj []) (JArr [])), Decoded (RECORD ''t'' [(''x'', JNum 1)]),
       Decoded (STATE (JNum 7))]
      @ Decoded (RECORD ''s'' [(''x'', JNum 1)])
        # [Decoded (SCHEMA ''s'' (JObj []) (JArr [])), Decoded (RECORD ''t'' [(''x'', JNum 2)])]))
     = []
   \<and> final_files (main config_sftp env0 remote0 disk0
     ([Decoded (SCHEMA ''t'' (JObj []) (JArr [])), Decoded (RECORD ''t'' [(''x'', JNum 1)]),
       Decoded (STATE (JNum 7))]
      @ Decoded (RECORD ''s'' [(''x'', JNum 1)])
        # [Decoded (SCHEMA ''s'' (JObj []) (JArr [])), Decoded (RECORD ''t'' [(''x'', JNum 2)])]))
       ''t-20240101T000000.csv''
     = Some [[''x''], [''1'']]
   \<and> final_files (main config_sftp env0 remote0 disk0
     ([Decoded (SCHEMA ''t'' (JObj []) (JArr [])), Decoded (RECORD ''t'' [(''x'', JNum 1)]),
       Decoded (STATE (JNum 7))]
      @ Decoded (RECORD ''s'' [(''x'', JNum 1)])
        # [Decoded (SCHEMA ''s'' (JObj []) (JArr [])), Decoded (RECORD ''t'' [(''x'', JNum 2)])]))
       ''s-20240101T000000.csv''
     = None"
proof -
  have a: "snd (persist_loop config_sftp env0 (initial disk0)
             [Decoded (SCHEMA ''t'' (JObj []) (JArr [])), Decoded (RECORD ''t'' [(''x'', JNum 1)]),
              Decoded (STATE (JNum 7))]) = None"
    by (simp add: run_simps)
  have b: "\<forall>sch kp. Decoded (SCHEMA ''s'' sch kp)
             \<notin> set [Decoded (SCHEMA ''t'' (JObj []) (JArr [])),
                    Decoded (RECORD ''t'' [(''x'', JNum 1)]), Decoded (STATE (JNum 7))]"
    by simp
  have c: "files (fst (persist_loop config_sftp env0 (initial disk0)
             [Decoded (SCHEMA ''t'' (JObj []) (JArr [])), Decoded (RECORD ''t'' [(''x'', JNum 1)]),
              Decoded (STATE (JNum 7))])) ''t-20240101T000000.csv'' = Some [[''x''], [''1'']]"
    by (simp add: run_simps)
  have d: "files (fst (persist_loop config_sftp env0 (initial disk0)
             [Decoded (SCHEMA ''t'' (JObj []) (JArr [])), Decoded (RECORD ''t'' [(''x'', JNum 1)]),
              Decoded (STATE (JNum 7))])) ''s-20240101T000000.csv'' = None"
    by (simp add: run_simps)
  show ?thesis
    unfolding record_before_schema [OF a b] using c d by simp
qed

section \<open>The transfer gate\<close>

lemma local_path_cfg:
  assumes "destination_path cfg' = destination_path cfg"
  shows "local_path cfg' ev s = local_path cfg ev s"
  using assms by (simp add: local_path_def)

lemma resolve_headers_cfg:
  assumes "fixed_headers cfg' = fixed_headers cfg"
  shows "resolve_headers cfg' st s r p = resolve_headers cfg st s r p"
  using assms by (simp add: resolve_headers_def fixed_for_def)

lemma persist_record_cfg:
  assumes "destination_path cfg' = destination_path cfg"
    and "fixed_headers cfg' = fixed_headers cfg"
  shows "persist_record cfg' ev st s r = persist_record cfg ev st s r"
  unfolding persist_record_def local_path_cfg [OF assms(1)] resolve_headers_cfg [OF assms(2)]
  by (rule refl)

lemma handle_message_cfg:
  assumes "destination_path cfg' = destination_path cfg"
    and "fixed_headers cfg' = fixed_headers cfg"
  shows "handle_message cfg' ev st m = handle_message cfg ev st m"
proof (cases m)
  case (Decoded msg)
  then show ?thesis using persist_record_cfg [OF assms] by (cases msg) simp_all
qed simp

lemma persist_loop_cfg:
  assumes "destination_path cfg' = destination_path cfg"
    and "fixed_headers cfg' = fixed_headers cfg"
  shows "persist_loop cfg' ev st msgs = persist_loop cfg ev st msgs"
  by (induction msgs arbitrary: st)
     (simp_all add: handle_message_cfg [OF assms] split: sum.splits)

lemma main_disabled:
  assumes "\<not> transfer_enabled cfg"
  shows "main cfg ev rm fs msgs =
     (case persist_loop cfg ev (initial fs) msgs of
        (st, Some e) \<Rightarrow>
          \<lparr>final_files = files st, network = [], stdout = [], exit_error = Some e\<rparr>
      | (st, None) \<Rightarrow>
          \<lparr>final_files = files st, network = [], stdout = emit_state ev (state st),
           exit_error = None\<rparr>)"
  using assms by (simp add: main_def persist_messages_def split: prod.splits option.splits)

lemma network_disabled:
  assumes "\<not> transfer_enabled cfg"
  shows "network (main cfg ev rm fs msgs) = []"
  by (simp add: main_disabled [OF assms] split: prod.splits option.splits)

lemma main_falsy:
  assumes "\<not> transfer_enabled cfg'" and "\<not> transfer_enabled cfg"
    and "destination_path cfg' = destination_path cfg"
    and "fixed_headers cfg' = fixed_headers cfg"
  shows "main cfg' ev rm fs msgs = main cfg ev rm fs msgs"
  by (simp add: main_disabled assms(1,2) persist_loop_cfg [OF assms(3,4)])

lemma transfer_port:
  "transfer (cfg\<lparr>sftp_port := p\<rparr>) rm fs names = transfer cfg rm fs names"
  by (simp add: transfer_def)

lemma transfer_enabled_port:
  "transfer_enabled (cfg\<lparr>sftp_port := p\<rparr>) = transfer_enabled cfg"
  by (simp add: transfer_enabled_def)

lemma persist_messages_port:
  "persist_messages (cfg\<lparr>sftp_port := p\<rparr>) ev rm fs msgs
   = persist_messages cfg ev rm fs msgs"
proof -
  have "persist_loop (cfg\<lparr>sftp_port := p\<rparr>) ev (initial fs) msgs
        = persist_loop cfg ev (initial fs) msgs"
    by (rule persist_loop_cfg) simp_all
  then show ?thesis
    unfolding persist_messages_def transfer_port transfer_enabled_port by simp
qed

text \<open>
  C6, as the claim states it, fails: the test of line 114 names five options and
  \<open>sftp_port\<close> is not among them. With the port absent and the other five set, the
  session is opened.
\<close>

theorem transfer_without_port_counterexample:
  "sftp_port config_sftp = JNull
   \<and> network (main config_sftp env0 remote0 disk0 []) =
       [Connect (JStr ''files.example.org'') (JStr ''u'') (JStr ''secret'') True,
        OpenSftp True, CloseSftp, CloseClient]"
  by (simp add: run_simps)

text \<open>
  C6, amended: the transfer dispatcher runs only when the five options \<open>sftp_host\<close>,
  \<open>sftp_username\<close>, \<open>sftp_password\<close>, \<open>sftp_public_key\<close> and
  \<open>sftp_public_key_format\<close> are present; if any single one of these five is absent,
  the dispatcher is skipped entirely and the run makes no call on the network.
\<close>

theorem transfer_gate:
  assumes "sftp_host cfg = JNull \<or> sftp_username cfg = JNull \<or> sftp_password cfg = JNull
           \<or> sftp_public_key cfg = JNull \<or> sftp_public_key_format cfg = JNull"
  shows "network (main cfg ev rm fs msgs) = []"
proof -
  from assms have "\<not> transfer_enabled cfg"
    by (auto simp: transfer_enabled_def)
  then show ?thesis by (rule network_disabled)
qed

theorem transfer_gate_witness:
  "sftp_public_key (config_sftp\<lparr>sftp_public_key := JNull, sftp_port := JNum 22\<rparr>) = JNull
   \<and> network (main (config_sftp\<lparr>sftp_public_key := JNull, sftp_port := JNum 22\<rparr>)
        env0 remote0 disk0
        [Decoded (SCHEMA ''s'' (JObj []) (JArr [])), Decoded (RECORD ''s'' [(''x'', JNum 1)])])
      = []"
  using transfer_gate [where cfg = "config_sftp\<lparr>sftp_public_key := JNull, sftp_port := JNum 22\<rparr>"
      and ev = env0 and rm = remote0 and fs = disk0
      and msgs = "[Decoded (SCHEMA ''s'' (JObj []) (JArr [])),
                   Decoded (RECORD ''s'' [(''x'', JNum 1)])]"]
  by simp

text \<open>
  C10: the gate tests truth values, not presence, and the port plays no part in the run.
  Changing \<open>sftp_port\<close> to any value changes nothing that the run does, the session calls
  included; and for each of the five tested options, the run with the option set to the
  empty string is the run with the option absent, and it makes no call on the network.
\<close>

theorem truthiness_and_port:
  "main (cfg\<lparr>sftp_port := p\<rparr>) ev rm fs msgs = main cfg ev rm fs msgs
   \<and> main (cfg\<lparr>sftp_host := JStr []\<rparr>) ev rm fs msgs
       = main (cfg\<lparr>sftp_host := JNull\<rparr>) ev rm fs msgs
   \<and> network (main (cfg\<lparr>sftp_host := JStr []\<rparr>) ev rm fs msgs) = []
   \<and> main (cfg\<lparr>sftp_password := JStr []\<rparr>) ev rm fs msgs
       = main (cfg\<lparr>sftp_password := JNull\<rparr>) ev rm fs msgs
   \<and> network (main (cfg\<lparr>sftp_password := JStr []\<rparr>) ev rm fs msgs) = []
   \<and> main (cfg\<lparr>sftp_username := JStr []\<rparr>) ev rm fs msgs
       = main (cfg\<lparr>sftp_username := JNull\<rparr>) ev rm fs msgs
   \<and> network (main (cfg\<lparr>sftp_username := JStr []\<rparr>) ev rm fs msgs) = []
   \<and> main (cfg\<lparr>sftp_public_key := JStr []\<rparr>) ev rm fs msgs
       = main (cfg\<lparr>sftp_public_key := JNull\<rparr>) ev rm fs msgs
   \<and> network (main (cfg\<lparr>sftp_public_key := JStr []\<rparr>) ev rm fs msgs) = []
   \<and> main (cfg\<lparr>sftp_public_key_format := JStr []\<rparr>) ev rm fs msgs
       = main (cfg\<lparr>sftp_public_key_format := JNull\<rparr>) ev rm fs msgs
   \<and> network (main (cfg\<lparr>sftp_public_key_format := JStr []\<rparr>) ev rm fs msgs) = []"
proof (intro conjI)
  show "main (cfg\<lparr>sftp_port := p\<rparr>) ev rm fs msgs = main cfg ev rm fs msgs"
    by (simp add: main_def persist_messages_port)
  show "main (cfg\<lparr>sftp_host := JStr []\<rparr>) ev rm fs msgs
        = main (cfg\<lparr>sftp_host := JNull\<rparr>) ev rm fs msgs"
    by (rule main_falsy) (simp_all add: transfer_enabled_def)
  show "network (main (cfg\<lparr>sftp_host := JStr []\<rparr>) ev rm fs msgs) = []"
    by (rule network_disabled) (simp add: transfer_enabled_def)
  show "main (cfg\<lparr>sftp_password := JStr []\<rparr>) ev rm fs msgs
        = main (cfg\<lparr>sftp_password := JNull\<rparr>) ev rm fs msgs"
    by (rule main_falsy) (simp_all add: transfer_enabled_def)
  show "network (main (cfg\<lparr>sftp_password := JStr []\<rparr>) ev rm fs msgs) = []"
    by (rule network_disabled) (simp add: transfer_enabled_def)
  show "main (cfg\<lparr>sftp_username := JStr []\<rparr>) ev rm fs msgs
        = main (cfg\<lparr>sftp_username := JNull\<rparr>) ev rm fs msgs"
    by (rule main_falsy) (simp_all add: transfer_enabled_def)
  show "network (main (cfg\<lparr>sftp_username := JStr []\<rparr>) ev rm fs msgs) = []"
    by (rule network_disabled) (simp add: transfer_enabled_def)
  show "main (cfg\<lparr>sftp_public_key := JStr []\<rparr>) ev rm fs msgs
        = main (cfg\<lparr>sftp_public_key := JNull\<rparr>) ev rm fs msgs"
    by (rule main_falsy) (simp_all add: transfer_enabled_def)
  show "network (main (cfg\<lparr>sftp_public_key := JStr []\<rparr>) ev rm fs msgs) = []"
    by (rule network_disabled) (simp add: transfer_enabled_def)
  show "main (cfg\<lparr>sftp_public_key_format := JStr []\<rparr>) ev rm fs msgs
        = main (cfg\<lparr>sftp_public_key_format := JNull\<rparr>) ev rm fs msgs"
    by (rule main_falsy) (simp_all add: transfer_enabled_def)
  show "network (main (cfg\<lparr>sftp_public_key_format := JStr []\<rparr>) ev rm fs msgs) = []"
    by (rule network_disabled) (simp add: transfer_enabled_def)
qed

text \<open>
  With the five options set, the session is the same whatever the port; with the
  password set to the empty string, there is none.
\<close>

theorem truthiness_and_port_witness:
  "network (main (config_sftp\<lparr>sftp_port := JNum 2222\<rparr>) env0 remote0 disk0 [])
     = [Connect (JStr ''files.example.org'') (JStr ''u'') (JStr ''secret'') True,
        OpenSftp True, CloseSftp, CloseClient]
   \<and> main (config_sftp\<lparr>sftp_password := JStr []\<rparr>) env0 remote0 disk0 []
     = \<lparr>final_files = disk0, network = [], stdout = [], exit_error = None\<rparr>"
  using truthiness_and_port [where cfg = config_sftp and p = "JNum 2222" and ev = env0
      and rm = remote0 and fs = disk0 and msgs = "[]"]
  by (simp add: run_simps)

section \<open>The transfer session\<close>

lemma put_all_shape:
  "put_all rm fs names = (evs, r) \<Longrightarrow>
     (r = None \<and> evs = map (\<lambda>f. Put f f True) names)
   \<or> (\<exists>ok bad rest. names = ok @ bad # rest \<and> r \<noteq> None
        \<and> evs = map (\<lambda>f. Put f f True) ok @ [Put bad bad False])"
proof (induction names arbitrary: evs r)
  case Nil
  then show ?case by simp
next
  case (Cons f fs')
  show ?case
  proof (cases "fs f = None \<or> put_fails rm f")
    case True
    with Cons.prems have "evs = [Put f f False]" "r \<noteq> None" by (auto split: if_splits)
    then have "f # fs' = [] @ f # fs' \<and> r \<noteq> None
        \<and> evs = map (\<lambda>f. Put f f True) [] @ [Put f f False]"
      by simp
    then show ?thesis by blast
  next
    case False
    obtain evs' r' where p: "put_all rm fs fs' = (evs', r')" by (cases "put_all rm fs fs'")
    with False Cons.prems have e: "evs = Put f f True # evs'" "r = r'" by auto
    from Cons.IH [OF p] show ?thesis
    proof
      assume "r' = None \<and> evs' = map (\<lambda>f. Put f f True) fs'"
      with e show ?thesis by simp
    next
      assume "\<exists>ok bad rest. fs' = ok @ bad # rest \<and> r' \<noteq> None
        \<and> evs' = map (\<lambda>f. Put f f True) ok @ [Put bad bad False]"
      then obtain ok bad rest where "fs' = ok @ bad # rest" "r' \<noteq> None"
        "evs' = map (\<lambda>f. Put f f True) ok @ [Put bad bad False]" by blast
      with e have "f # fs' = (f # ok) @ bad # rest \<and> r \<noteq> None
        \<and> evs = map (\<lambda>f. Put f f True) (f # ok) @ [Put bad bad False]" by simp
      then show ?thesis by blast
    qed
  qed
qed

lemma after_failure:
  assumes "xs = pre @ y # post" and "\<forall>z\<in>set pre. \<not> P z" and "xs = a @ x # b" and "P x"
  shows "set b \<subseteq> set post"
  using assms
  by (auto simp: append_eq_append_conv2 Cons_eq_append_conv append_eq_Cons_conv)

lemma no_failure:
  assumes "\<forall>z\<in>set xs. \<not> P z" and "xs = a @ x # b" and "P x"
  shows "False"
  using assms by auto

lemma transfer_shape:
  assumes "transfer cfg rm fs names = (evs, r)"
  shows "(evs = [Connect (sftp_host cfg) (sftp_username cfg) (sftp_password cfg) False,
                 CloseClient] \<and> r \<noteq> None)
       \<or> (evs = [Connect (sftp_host cfg) (sftp_username cfg) (sftp_password cfg) True,
                 OpenSftp False, CloseClient] \<and> r \<noteq> None)
       \<or> (evs = [Connect (sftp_host cfg) (sftp_username cfg) (sftp_password cfg) True,
                 OpenSftp True] @ map (\<lambda>f. Put f f True) names @ [CloseSftp, CloseClient]
            \<and> r = None)
       \<or> (\<exists>ok bad rest. names = ok @ bad # rest \<and> r \<noteq> None
            \<and> evs = ([Connect (sftp_host cfg) (sftp_username cfg) (sftp_password cfg) True,
                      OpenSftp True] @ map (\<lambda>f. Put f f True) ok)
                    @ Put bad bad False # [CloseSftp, CloseClient])"
proof (cases "connect_fails rm")
  case True
  with assms show ?thesis by (auto simp: transfer_def)
next
  case c: False
  show ?thesis
  proof (cases "open_sftp_fails rm")
    case True
    with c assms show ?thesis by (auto simp: transfer_def)
  next
    case False
    obtain pe pr where p: "put_all rm fs names = (pe, pr)" by (cases "put_all rm fs names")
    with c False assms have e:
      "evs = [Connect (sftp_host cfg) (sftp_username cfg) (sftp_password cfg) True,
              OpenSftp True] @ pe @ [CloseSftp, CloseClient]" "r = pr"
      by (auto simp: transfer_def)
    from put_all_shape [OF p] show ?thesis
    proof
      assume "pr = None \<and> pe = map (\<lambda>f. Put f f True) names"
      with e show ?thesis by simp
    next
      assume "\<exists>ok bad rest. names = ok @ bad # rest \<and> pr \<noteq> None
        \<and> pe = map (\<lambda>f. Put f f True) ok @ [Put bad bad False]"
      then obtain ok bad rest where "names = ok @ bad # rest" "pr \<noteq> None"
        "pe = map (\<lambda>f. Put f f True) ok @ [Put bad bad False]" by blast
      with e have "names = ok @ bad # rest \<and> r \<noteq> None
            \<and> evs = ([Connect (sftp_host cfg) (sftp_username cfg) (sftp_password cfg) True,
                      OpenSftp True] @ map (\<lambda>f. Put f f True) ok)
                    @ Put bad bad False # [CloseSftp, CloseClient]"
        by simp
      then show ?thesis by blast
    qed
  qed
qed

lemma transfer_after_failure:
  assumes t: "transfer cfg rm fs names = (evs, r)" and d: "evs = a @ x # b" and x: "raised x"
  shows "set b \<subseteq> {CloseSftp, CloseClient}"
proof -
  let ?c = "\<lambda>ok. Connect (sftp_host cfg) (sftp_username cfg) (sftp_password cfg) ok"
  from transfer_shape [OF t] consider
    (1) "evs = [] @ ?c False # [CloseClient]"
  | (2) "evs = [?c True] @ OpenSftp False # [CloseClient]"
  | (3) "evs = [?c True, OpenSftp True] @ map (\<lambda>f. Put f f True) names
               @ [CloseSftp, CloseClient]"
  | (4) ok bad where "evs = ([?c True, OpenSftp True] @ map (\<lambda>f. Put f f True) ok)
                        @ Put bad bad False # [CloseSftp, CloseClient]"
    by auto
  then show ?thesis
  proof cases
    case 1
    have "set b \<subseteq> set [CloseClient]"
      by (rule after_failure [where P = raised, OF 1 _ d x]) simp
    then show ?thesis by auto
  next
    case 2
    have "set b \<subseteq> set [CloseClient]"
      by (rule after_failure [where P = raised, OF 2 _ d x]) simp
    then show ?thesis by auto
  next
    case 3
    then have "\<forall>z\<in>set evs. \<not> raised z" by auto
    from no_failure [where P = raised, OF this d x] show ?thesis by simp
  next
    case 4
    have "set b \<subseteq> set [CloseSftp, CloseClient]"
      by (rule after_failure [where P = raised, OF 4 _ d x]) auto
    then show ?thesis by auto
  qed
qed

lemma transfer_closes:
  assumes t: "transfer cfg rm fs names = (evs, r)"
  shows "\<exists>body. evs = body @ [CloseClient] \<and> CloseClient \<notin> set body"
    and "OpenSftp True \<in> set evs \<Longrightarrow>
           \<exists>body. evs = body @ [CloseSftp, CloseClient] \<and> CloseSftp \<notin> set body"
    and "CloseSftp \<in> set evs \<Longrightarrow> OpenSftp True \<in> set evs"
    and "(\<exists>x\<in>set evs. raised x) \<longleftrightarrow> r \<noteq> None"
    and "r = None \<Longrightarrow>
           evs = [Connect (sftp_host cfg) (sftp_username cfg) (sftp_password cfg) True,
                  OpenSftp True] @ map (\<lambda>f. Put f f True) names @ [CloseSftp, CloseClient]"
  using transfer_shape [OF t] by (auto 0 3)

lemma main_enabled:
  assumes "persist_loop cfg ev (initial fs) msgs = (st, None)" and "transfer_enabled cfg"
    and "transfer cfg rm (files st) (map snd (stream_2_filenames st)) = (evs, r)"
  shows "network (main cfg ev rm fs msgs) = evs" and "exit_error (main cfg ev rm fs msgs) = r"
    and "r \<noteq> None \<Longrightarrow> stdout (main cfg ev rm fs msgs) = []"
    and "final_files (main cfg ev rm fs msgs) = files st"
  using assms by (auto simp: main_def persist_messages_def split: option.splits)

text \<open>
  C8: when the dispatcher runs, a call of the session that raises is followed by closing
  calls only, so no further copy is attempted; the client is closed, once and last, in
  every case; the SFTP channel is closed, right before the client, exactly when it was
  opened; the run ends with an error, and emits no checkpoint, exactly when a call
  raised; and on the success path every file of the manifest is copied, in order, and
  both resources are then released.
\<close>

theorem transfer_session:
  assumes "snd (persist_loop cfg ev (initial fs) msgs) = None" and "transfer_enabled cfg"
  shows "(\<forall>a x b. network (main cfg ev rm fs msgs) = a @ x # b \<and> raised x
            \<longrightarrow> set b \<subseteq> {CloseSftp, CloseClient})
       \<and> (\<exists>body. network (main cfg ev rm fs msgs) = body @ [CloseClient]
            \<and> CloseClient \<notin> set body)
       \<and> (OpenSftp True \<in> set (network (main cfg ev rm fs msgs)) \<longrightarrow>
            (\<exists>body. network (main cfg ev rm fs msgs) = body @ [CloseSftp, CloseClient]
               \<and> CloseSftp \<notin> set body))
       \<and> (CloseSftp \<in> set (network (main cfg ev rm fs msgs)) \<longrightarrow>
            OpenSftp True \<in> set (network (main cfg ev rm fs msgs)))
       \<and> ((\<exists>x\<in>set (network (main cfg ev rm fs msgs)). raised x)
            \<longleftrightarrow> exit_error (main cfg ev rm fs msgs) \<noteq> None)
       \<and> (exit_error (main cfg ev rm fs msgs) \<noteq> None \<longrightarrow> stdout (main cfg ev rm fs msgs) = [])
       \<and> (exit_error (main cfg ev rm fs msgs) = None \<longrightarrow>
            network (main cfg ev rm fs msgs) =
              [Connect (sftp_host cfg) (sftp_username cfg) (sftp_password cfg) True, OpenSftp True]
              @ map (\<lambda>f. Put f f True)
                  (map snd (stream_2_filenames (fst (persist_loop cfg ev (initial fs) msgs))))
              @ [CloseSftp, CloseClient])"
proof -
  obtain st where l: "persist_loop cfg ev (initial fs) msgs = (st, None)"
    using assms(1) by (cases "persist_loop cfg ev (initial fs) msgs") simp
  obtain evs r where t: "transfer cfg rm (files st) (map snd (stream_2_filenames st)) = (evs, r)"
    by (cases "transfer cfg rm (files st) (map snd (stream_2_filenames st))")
  note m = main_enabled [OF l assms(2) t]
  have "\<forall>a x b. evs = a @ x # b \<and> raised x \<longrightarrow> set b \<subseteq> {CloseSftp, CloseClient}"
    using transfer_after_failure [OF t] by blast
  moreover note transfer_closes [OF t]
  ultimately show ?thesis
    unfolding m(1) m(2) l fst_conv using m(3) by blast
qed

text \<open>Three streams, the remote host refusing the second file.\<close>

theorem transfer_session_witness:
  "network (main config_sftp env0 (remote_refusing ''b-20240101T000000.csv'') disk0
     [Decoded (SCHEMA ''a'' (JObj []) (JArr [])), Decoded (SCHEMA ''b'' (JObj []) (JArr [])),
      Decoded (SCHEMA ''c'' (JObj []) (JArr [])), Decoded (RECORD ''a'' [(''x'', JNum 1)]),
      Decoded (RECORD ''b'' [(''x'', JNum 2)]), Decoded (RECORD ''c'' [(''x'', JNum 3)]),
      Decoded (STATE (JNum 3))])
   = [Connect (JStr ''files.example.org'') (JStr ''u'') (JStr ''secret'') True, OpenSftp True,
      Put ''a-20240101T000000.csv'' ''a-20240101T000000.csv'' True,
      Put ''b-20240101T000000.csv'' ''b-20240101T000000.csv'' False,
      CloseSftp, CloseClient]
   \<and> exit_error (main config_sftp env0 (remote_refusing ''b-20240101T000000.csv'') disk0
     [Decoded (SCHEMA ''a'' (JObj []) (JArr [])), Decoded (SCHEMA ''b'' (JObj []) (JArr [])),
      Decoded (SCHEMA ''c'' (JObj []) (JArr [])), Decoded (RECORD ''a'' [(''x'', JNum 1)]),
      Decoded (RECORD ''b'' [(''x'', JNum 2)]), Decoded (RECORD ''c'' [(''x'', JNum 3)]),
      Decoded (STATE (JNum 3))])
   = Some (PutError ''b-20240101T000000.csv'')
   \<and> stdout (main config_sftp env0 (remote_refusing ''b-20240101T000000.csv'') disk0
     [Decoded (SCHEMA ''a'' (JObj []) (JArr [])), Decoded (SCHEMA ''b'' (JObj []) (JArr [])),
      Decoded (SCHEMA ''c'' (JObj []) (JArr [])), Decoded (RECORD ''a'' [(''x'', JNum 1)]),
      Decoded (RECORD ''b'' [(''x'', JNum 2)]), Decoded (RECORD ''c'' [(''x'', JNum 3)]),
      Decoded (STATE (JNum 3))]) = []"
proof -
  let ?msgs = "[Decoded (SCHEMA ''a'' (JObj []) (JArr [])), Decoded (SCHEMA ''b'' (JObj []) (JArr [])),
      Decoded (SCHEMA ''c'' (JObj []) (JArr [])), Decoded (RECORD ''a'' [(''x'', JNum 1)]),
      Decoded (RECORD ''b'' [(''x'', JNum 2)]), Decoded (RECORD ''c'' [(''x'', JNum 3)]),
      Decoded (STATE (JNum 3))]"
  let ?out = "main config_sftp env0 (remote_refusing ''b-20240101T000000.csv'') disk0 ?msgs"
  have a: "snd (persist_loop config_sftp env0 (initial disk0) ?msgs) = None"
    by (simp add: run_simps)
  have b: "transfer_enabled config_sftp"
    by (simp add: run_simps)
  have n: "network ?out = [Connect (JStr ''files.example.org'') (JStr ''u'') (JStr ''secret'') True, OpenSftp True,
      Put ''a-20240101T000000.csv'' ''a-20240101T000000.csv'' True,
      Put ''b-20240101T000000.csv'' ''b-20240101T000000.csv'' False,
      CloseSftp, CloseClient]"
    by (simp add: run_simps)
  have "\<exists>x\<in>set (network ?out). raised x"
    unfolding n by simp
  with transfer_session [OF a b, where rm = "remote_refusing ''b-20240101T000000.csv''"]
  have e: "exit_error ?out \<noteq> None" and s: "stdout ?out = []" by blast+
  have "exit_error ?out = Some (PutError ''b-20240101T000000.csv'')"
    by (simp add: run_simps)
  with n s show ?thesis by simp
qed

section \<open>The manifest\<close>

lemma persist_record_effect:
  assumes "persist_record cfg ev st s r = Inr st'"
  shows "stream_2_filenames st' = AList.update s (stream_filename ev s) (stream_2_filenames st)"
    and "p \<noteq> local_path cfg ev s \<Longrightarrow> files st' p = files st p"
  using assms
  by (auto simp: persist_record_def Let_def split: if_splits option.splits sum.splits)

lemma handle_message_manifest:
  assumes h: "handle_message cfg ev st m = Inr st'"
  shows "map_of (stream_2_filenames st') s =
           (if \<exists>r. m = Decoded (RECORD s r) then Some (stream_filename ev s)
            else map_of (stream_2_filenames st) s)"
    and "distinct (map fst (stream_2_filenames st)) \<Longrightarrow> distinct (map fst (stream_2_filenames st'))"
    and "files st' p \<noteq> files st p \<Longrightarrow> \<exists>x r. m = Decoded (RECORD x r) \<and> p = local_path cfg ev x"
proof -
  have "map_of (stream_2_filenames st') s =
           (if \<exists>r. m = Decoded (RECORD s r) then Some (stream_filename ev s)
            else map_of (stream_2_filenames st) s)
     \<and> (distinct (map fst (stream_2_filenames st)) \<longrightarrow> distinct (map fst (stream_2_filenames st')))
     \<and> (files st' p \<noteq> files st p \<longrightarrow> (\<exists>x r. m = Decoded (RECORD x r) \<and> p = local_path cfg ev x))"
  proof (cases m)
    case Malformed
    with h show ?thesis by simp
  next
    case (Decoded msg)
    show ?thesis
    proof (cases msg)
      case (RECORD x r)
      with Decoded h have "persist_record cfg ev st x r = Inr st'" by simp
      from persist_record_effect [OF this] RECORD Decoded show ?thesis
        by (auto simp: update_conv' distinct_update)
    qed (use Decoded h in auto)
  qed
  then show "map_of (stream_2_filenames st') s =
           (if \<exists>r. m = Decoded (RECORD s r) then Some (stream_filename ev s)
            else map_of (stream_2_filenames st) s)"
    and "distinct (map fst (stream_2_filenames st)) \<Longrightarrow> distinct (map fst (stream_2_filenames st'))"
    and "files st' p \<noteq> files st p \<Longrightarrow> \<exists>x r. m = Decoded (RECORD x r) \<and> p = local_path cfg ev x"
    by blast+
qed

lemma persist_loop_manifest:
  "persist_loop cfg ev st msgs = (st', None) \<Longrightarrow>
     map_of (stream_2_filenames st') s =
       (if \<exists>r. Decoded (RECORD s r) \<in> set msgs then Some (stream_filename ev s)
        else map_of (stream_2_filenames st) s)
   \<and> (distinct (map fst (stream_2_filenames st)) \<longrightarrow> distinct (map fst (stream_2_filenames st')))
   \<and> (files st' p \<noteq> files st p \<longrightarrow>
        (\<exists>x r. Decoded (RECORD x r) \<in> set msgs \<and> p = local_path cfg ev x))"
proof (induction msgs arbitrary: st)
  case Nil
  then show ?case by simp
next
  case (Cons m ms)
  from Cons.prems obtain st1 where
    h: "handle_message cfg ev st m = Inr st1" and r: "persist_loop cfg ev st1 ms = (st', None)"
    by (rule persist_loop_Cons_ok)
  note a = handle_message_manifest [OF h]
  note b = Cons.IH [OF r]
  have 1: "map_of (stream_2_filenames st') s =
       (if \<exists>r. Decoded (RECORD s r) \<in> set (m # ms) then Some (stream_filename ev s)
        else map_of (stream_2_filenames st) s)"
    using a(1) b by auto
  have 2: "distinct (map fst (stream_2_filenames st)) \<longrightarrow> distinct (map fst (stream_2_filenames st'))"
    using a(2) b by blast
  have 3: "files st' p \<noteq> files st p \<longrightarrow>
        (\<exists>x r. Decoded (RECORD x r) \<in> set (m # ms) \<and> p = local_path cfg ev x)"
  proof
    assume d: "files st' p \<noteq> files st p"
    show "\<exists>x r. Decoded (RECORD x r) \<in> set (m # ms) \<and> p = local_path cfg ev x"
    proof (cases "files st1 p = files st p")
      case True
      with d have "files st' p \<noteq> files st1 p" by simp
      with b obtain x r where "Decoded (RECORD x r) \<in> set ms" "p = local_path cfg ev x" by blast
      then show ?thesis by auto
    next
      case False
      from a(3) [OF False] show ?thesis by auto
    qed
  qed
  from 1 2 3 show ?case by blast
qed

lemma transfer_puts:
  assumes "transfer cfg rm fs names = (evs, r)" and "Put l r' b \<in> set evs"
  shows "l \<in> set names \<and> r' = l"
  using transfer_shape [OF assms(1)] assms(2) by auto

lemma stream_filename_inj:
  "stream_filename ev s = stream_filename ev s' \<Longrightarrow> s = s'"
  by (simp add: stream_filename_def)

lemma main_puts:
  assumes "Put l r' b \<in> set (network (main cfg ev rm fs msgs))"
  shows "\<exists>st. persist_loop cfg ev (initial fs) msgs = (st, None) \<and> l \<in> snd ` set (stream_2_filenames st) \<and> r' = l"
proof -
  obtain st e where l: "persist_loop cfg ev (initial fs) msgs = (st, e)"
    by (cases "persist_loop cfg ev (initial fs) msgs")
  show ?thesis
  proof (cases "e = None \<and> transfer_enabled cfg")
    case True
    obtain evs r where t: "transfer cfg rm (files st) (map snd (stream_2_filenames st)) = (evs, r)"
      by (cases "transfer cfg rm (files st) (map snd (stream_2_filenames st))")
    from True l have l': "persist_loop cfg ev (initial fs) msgs = (st, None)" by simp
    from main_enabled(1) [OF l' _ t] True assms have "Put l r' b \<in> set evs" by simp
    from transfer_puts [OF t this] l' show ?thesis by auto
  next
    case False
    with l have "network (main cfg ev rm fs msgs) = []"
      by (auto simp: main_def persist_messages_def split: option.splits)
    with assms show ?thesis by simp
  qed
qed

section \<open>Headers and rows\<close>

lemma persist_loop_snoc_ok:
  assumes "snd (persist_loop cfg ev st0 (pre @ [m])) = None"
  obtains st st' where "persist_loop cfg ev st0 pre = (st, None)"
    and "handle_message cfg ev st m = Inr st'"
    and "persist_loop cfg ev st0 (pre @ [m]) = (st', None)"
proof -
  obtain st e where p: "persist_loop cfg ev st0 pre = (st, e)"
    by (cases "persist_loop cfg ev st0 pre")
  with assms have e: "e = None"
    by (cases e) (simp_all add: persist_loop_append)
  with assms p obtain st' where "handle_message cfg ev st m = Inr st'"
    by (cases "handle_message cfg ev st m") (simp_all add: persist_loop_append)
  with p e that show ?thesis
    by (simp add: persist_loop_append)
qed

lemma persist_record_write:
  assumes "persist_record cfg ev st s r = Inr st'"
  shows "\<exists>hs. headers st' s = Some hs
           \<and> files st' (local_path cfg ev s) =
               Some (file_rows (files st) (local_path cfg ev s)
                     @ (if file_is_empty (files st) (local_path cfg ev s) then [hs] else [])
                     @ [record_row ev hs r])"
  using assms
  by (auto simp: persist_record_def Let_def split: if_splits option.splits sum.splits)

lemma resolve_headers_fixed:
  assumes "fixed_for cfg s = Some fx" and "headers st s = None \<or> headers st s = Some fx"
    and "resolve_headers cfg st s r p = Inr hdrs"
  shows "hdrs s = Some fx"
  using assms by (auto simp: resolve_headers_def split: if_splits)

lemma resolve_headers_other:
  assumes "resolve_headers cfg st x r p = Inr hdrs" and "x \<noteq> s"
  shows "hdrs s = headers st s"
  using assms by (auto simp: resolve_headers_def split: if_splits option.splits list.splits)

lemma resolve_headers_fresh:
  assumes "fixed_for cfg s = None" and "file_is_empty (files st) p"
    and "resolve_headers cfg st s r p = Inr hdrs"
  shows "hdrs s = Some (map fst r)"
  using assms by (auto simp: resolve_headers_def split: if_splits)

lemma persist_record_headers:
  assumes "persist_record cfg ev st x r = Inr st'"
  shows "resolve_headers cfg st x r (local_path cfg ev x) = Inr (headers st')"
  using assms
  by (auto simp: persist_record_def Let_def split: if_splits option.splits sum.splits)

lemma handle_message_fixed:
  assumes f: "fixed_for cfg s = Some fx" and i: "headers st s = None \<or> headers st s = Some fx"
    and h: "handle_message cfg ev st m = Inr st'"
  shows "headers st' s = None \<or> headers st' s = Some fx"
proof (cases m)
  case Malformed
  with h show ?thesis by simp
next
  case (Decoded msg)
  show ?thesis
  proof (cases msg)
    case (RECORD x r)
    with Decoded h have p: "persist_record cfg ev st x r = Inr st'" by simp
    show ?thesis
    proof (cases "x = s")
      case True
      with resolve_headers_fixed [OF f i] persist_record_headers [OF p] show ?thesis by simp
    next
      case False
      from resolve_headers_other [OF persist_record_headers [OF p] False] i show ?thesis by simp
    qed
  qed (use Decoded h i in auto)
qed

lemma persist_loop_fixed:
  "fixed_for cfg s = Some fx \<Longrightarrow> headers st s = None \<or> headers st s = Some fx \<Longrightarrow>
   persist_loop cfg ev st msgs = (st', None) \<Longrightarrow>
   headers st' s = None \<or> headers st' s = Some fx"
proof (induction msgs arbitrary: st)
  case Nil
  then show ?case by simp
next
  case (Cons m ms)
  from Cons.prems(3) obtain st1 where
    h: "handle_message cfg ev st m = Inr st1" and r: "persist_loop cfg ev st1 ms = (st', None)"
    by (rule persist_loop_Cons_ok)
  from handle_message_fixed [OF Cons.prems(1,2) h]
  show ?case by (rule Cons.IH [OF Cons.prems(1) _ r])
qed

text \<open>
  C5: when \<open>fixed_headers\<close> has an entry for a stream, every RECORD of the stream that a
  run writes, after any messages whatever and on any disk, leaves the configured list as
  the stream's cached header list, and appends to the stream's file the configured list
  as header row iff the file was empty or absent, followed by the record's row laid out by
  the configured list: its columns in the configured order, matched by name, whatever the
  file held and whatever the record's own field names and their order.
\<close>

theorem fixed_headers_rows:
  assumes "fixed_for cfg s = Some hs"
    and "snd (persist_loop cfg ev (initial fs) (pre @ [Decoded (RECORD s r)])) = None"
  shows "headers (fst (persist_loop cfg ev (initial fs) (pre @ [Decoded (RECORD s r)]))) s = Some hs
       \<and> files (fst (persist_loop cfg ev (initial fs) (pre @ [Decoded (RECORD s r)])))
           (local_path cfg ev s) =
         Some (file_rows (files (fst (persist_loop cfg ev (initial fs) pre))) (local_path cfg ev s)
               @ (if file_is_empty (files (fst (persist_loop cfg ev (initial fs) pre)))
                       (local_path cfg ev s)
                  then [hs] else [])
               @ [record_row ev hs r])"
proof -
  from assms(2) obtain st st' where
    l: "persist_loop cfg ev (initial fs) pre = (st, None)" and
    h: "handle_message cfg ev st (Decoded (RECORD s r)) = Inr st'" and
    l': "persist_loop cfg ev (initial fs) (pre @ [Decoded (RECORD s r)]) = (st', None)"
    by (rule persist_loop_snoc_ok)
  have "headers (initial fs) s = None \<or> headers (initial fs) s = Some hs"
    by (simp add: initial_def)
  from persist_loop_fixed [OF assms(1) this l]
  have i: "headers st s = None \<or> headers st s = Some hs" .
  from h have p: "persist_record cfg ev st s r = Inr st'" by simp
  from resolve_headers_fixed [OF assms(1) i persist_record_headers [OF p]]
  have "headers st' s = Some hs" .
  with persist_record_write [OF p] show ?thesis
    unfolding l l' fst_conv by auto
qed

text \<open>
  The file of stream \<open>s\<close> starts with the header row \<open>a,b,c\<close>; the configuration fixes
  \<open>z,y,x\<close>. Both records are laid out by \<open>z,y,x\<close>, and no header row is added.
\<close>

theorem fixed_headers_rows_witness:
  "fixed_for config_fixed ''s'' = Some [''z'', ''y'', ''x'']
   \<and> files (fst (persist_loop config_fixed env0 (initial disk_abc)
        ([Decoded (SCHEMA ''s'' (JObj []) (JArr [])),
          Decoded (RECORD ''s'' [(''x'', JNum 1), (''y'', JNum 2)])]
         @ [Decoded (RECORD ''s'' [(''y'', JNum 5), (''x'', JNum 4), (''w'', JNum 9)])])))
       ''s-20240101T000000.csv''
     = Some [[''a'', ''b'', ''c''], [[], ''2'', ''1''], [[], ''5'', ''4'']]"
proof -
  have a: "fixed_for config_fixed ''s'' = Some [''z'', ''y'', ''x'']"
    by (simp add: run_simps)
  have b: "snd (persist_loop config_fixed env0 (initial disk_abc)
        ([Decoded (SCHEMA ''s'' (JObj []) (JArr [])),
          Decoded (RECORD ''s'' [(''x'', JNum 1), (''y'', JNum 2)])]
         @ [Decoded (RECORD ''s'' [(''y'', JNum 5), (''x'', JNum 4), (''w'', JNum 9)])])) = None"
    by (simp add: run_simps)
  have c: "local_path config_fixed env0 ''s'' = ''s-20240101T000000.csv''"
    by (simp add: run_simps)
  have d: "file_rows (files (fst (persist_loop config_fixed env0 (initial disk_abc)
        [Decoded (SCHEMA ''s'' (JObj []) (JArr [])),
         Decoded (RECORD ''s'' [(''x'', JNum 1), (''y'', JNum 2)])]))) ''s-20240101T000000.csv''
     = [[''a'', ''b'', ''c''], [[], ''2'', ''1'']]"
    by (simp add: run_simps)
  have d': "file_is_empty (files (fst (persist_loop config_fixed env0 (initial disk_abc)
        [Decoded (SCHEMA ''s'' (JObj []) (JArr [])),
         Decoded (RECORD ''s'' [(''x'', JNum 1), (''y'', JNum 2)])]))) ''s-20240101T000000.csv''
     = False"
    by (simp add: run_simps)
  have e: "record_row env0 [''z'', ''y'', ''x''] [(''y'', JNum 5), (''x'', JNum 4), (''w'', JNum 9)]
     = [[], ''5'', ''4'']"
    by (simp add: run_simps)
  from fixed_headers_rows [OF a b]
  have "files (fst (persist_loop config_fixed env0 (initial disk_abc)
        ([Decoded (SCHEMA ''s'' (JObj []) (JArr [])),
          Decoded (RECORD ''s'' [(''x'', JNum 1), (''y'', JNum 2)])]
         @ [Decoded (RECORD ''s'' [(''y'', JNum 5), (''x'', JNum 4), (''w'', JNum 9)])])))
       ''s-20240101T000000.csv''
     = Some ([[''a'', ''b'', ''c''], [[], ''2'', ''1'']] @ [] @ [[[], ''5'', ''4'']])"
    unfolding c d d' e if_False by (rule conjunct2)
  then have "files (fst (persist_loop config_fixed env0 (initial disk_abc)
        ([Decoded (SCHEMA ''s'' (JObj []) (JArr [])),
          Decoded (RECORD ''s'' [(''x'', JNum 1), (''y'', JNum 2)])]
         @ [Decoded (RECORD ''s'' [(''y'', JNum 5), (''x'', JNum 4), (''w'', JNum 9)])])))
       ''s-20240101T000000.csv''
     = Some [[''a'', ''b'', ''c''], [[], ''2'', ''1''], [[], ''5'', ''4'']]"
    by (simp only: append.simps)
  with a show ?thesis by (rule conjI)
qed

text \<open>
  C4, as the claim states it, fails: with \<open>fixed_headers\<close> naming \<open>z,y,x\<close> for the stream,
  the first record \<open>{x:1,y:2}\<close> on a disk without the file gives the header row \<open>z,y,x\<close>
  and the row of an empty cell, \<open>2\<close> and \<open>1\<close>, not \<open>x,y\<close> and \<open>1,2\<close>.
\<close>

theorem fresh_file_fixed_counterexample:
  "file_is_empty disk0 (local_path config_fixed env0 ''s'')
   \<and> final_files (main config_fixed env0 remote0 disk0
        [Decoded (SCHEMA ''s'' (JObj []) (JArr [])),
         Decoded (RECORD ''s'' [(''x'', JNum 1), (''y'', JNum 2)])])
       (local_path config_fixed env0 ''s'')
     = Some [[''z'', ''y'', ''x''], [[], ''2'', ''1'']]"
  by (simp add: run_simps)

text \<open>
  C4, amended: when a stream without an entry in \<open>fixed_headers\<close> has a destination
  file that is empty or absent at the time of an append (the first of the run is the only
  one that can find it so), the writer writes the record's field names in their
  insertion order as header row, then the record row, so that the file holds exactly
  these two rows; when the file is not empty at that time, whatever the configuration,
  one record row is appended and no header row.
\<close>

theorem fresh_file_header:
  assumes "snd (persist_loop cfg ev (initial fs) (pre @ [Decoded (RECORD s r)])) = None"
  shows "(fixed_for cfg s = None
          \<and> file_is_empty (files (fst (persist_loop cfg ev (initial fs) pre))) (local_path cfg ev s)
          \<longrightarrow> files (fst (persist_loop cfg ev (initial fs) (pre @ [Decoded (RECORD s r)])))
                (local_path cfg ev s)
              = Some [map fst r, record_row ev (map fst r) r])
       \<and> (\<not> file_is_empty (files (fst (persist_loop cfg ev (initial fs) pre))) (local_path cfg ev s)
          \<longrightarrow> (\<exists>hs. headers (fst (persist_loop cfg ev (initial fs)
                                        (pre @ [Decoded (RECORD s r)]))) s = Some hs
                  \<and> files (fst (persist_loop cfg ev (initial fs) (pre @ [Decoded (RECORD s r)])))
                      (local_path cfg ev s)
                    = Some (file_rows (files (fst (persist_loop cfg ev (initial fs) pre)))
                              (local_path cfg ev s)
                            @ [record_row ev hs r])))"
proof -
  from assms obtain st st' where
    l: "persist_loop cfg ev (initial fs) pre = (st, None)" and
    h: "handle_message cfg ev st (Decoded (RECORD s r)) = Inr st'" and
    l': "persist_loop cfg ev (initial fs) (pre @ [Decoded (RECORD s r)]) = (st', None)"
    by (rule persist_loop_snoc_ok)
  from h have p: "persist_record cfg ev st s r = Inr st'" by simp
  from persist_record_write [OF p] obtain hs where
    w: "headers st' s = Some hs"
       "files st' (local_path cfg ev s) =
               Some (file_rows (files st) (local_path cfg ev s)
                     @ (if file_is_empty (files st) (local_path cfg ev s) then [hs] else [])
                     @ [record_row ev hs r])" by blast
  have 1: "files st' (local_path cfg ev s) = Some [map fst r, record_row ev (map fst r) r]"
    if "fixed_for cfg s = None" and e: "file_is_empty (files st) (local_path cfg ev s)"
  proof -
    from resolve_headers_fresh [OF that persist_record_headers [OF p]] w(1)
    have "hs = map fst r" by simp
    moreover from e have "file_rows (files st) (local_path cfg ev s) = []"
      by (auto simp: file_is_empty_def file_rows_def split: option.splits)
    ultimately show ?thesis using w(2) e by simp
  qed
  have 2: "\<exists>hs. headers st' s = Some hs \<and> files st' (local_path cfg ev s) =
               Some (file_rows (files st) (local_path cfg ev s) @ [record_row ev hs r])"
    if "\<not> file_is_empty (files st) (local_path cfg ev s)"
    using w that by auto
  from 1 2 show ?thesis
    unfolding l l' fst_conv by blast
qed

text \<open>
  The first record \<open>{x:1,y:2}\<close> on a disk without the file leaves the rows \<open>x,y\<close> and
  \<open>1,2\<close>; on the disk whose file holds \<open>a,b,c\<close>, the record \<open>{a:1,b:2,c:3,d:4}\<close> adds
  the row \<open>1,2,3\<close> alone.
\<close>

theorem fresh_file_header_witness:
  "files (fst (persist_loop config0 env0 (initial disk0)
        ([Decoded (SCHEMA ''s'' (JObj []) (JArr []))]
         @ [Decoded (RECORD ''s'' [(''x'', JNum 1), (''y'', JNum 2)])])))
       ''s-20240101T000000.csv''
     = Some [[''x'', ''y''], [''1'', ''2'']]
   \<and> files (fst (persist_loop config0 env0 (initial disk_abc)
        ([Decoded (SCHEMA ''s'' (JObj []) (JArr []))]
         @ [Decoded (RECORD ''s'' [(''a'', JNum 1), (''b'', JNum 2), (''c'', JNum 3),
                                   (''d'', JNum 4)])])))
       ''s-20240101T000000.csv''
     = Some [[''a'', ''b'', ''c''], [''1'', ''2'', ''3'']]"
proof -
  have a: "snd (persist_loop config0 env0 (initial disk0)
        ([Decoded (SCHEMA ''s'' (JObj []) (JArr []))]
         @ [Decoded (RECORD ''s'' [(''x'', JNum 1), (''y'', JNum 2)])])) = None"
    by (simp add: run_simps)
  have b: "fixed_for config0 ''s'' = None
     \<and> file_is_empty (files (fst (persist_loop config0 env0 (initial disk0)
          [Decoded (SCHEMA ''s'' (JObj []) (JArr []))]))) (local_path config0 env0 ''s'')"
    by (simp add: run_simps)
  have c: "local_path config0 env0 ''s'' = ''s-20240101T000000.csv''"
    by (simp add: run_simps)
  have d: "record_row env0 (map fst [(''x'', JNum 1), (''y'', JNum 2)])
             [(''x'', JNum 1), (''y'', JNum 2)] = [''1'', ''2'']"
    by (simp add: run_simps)
  from fresh_file_header [OF a] b
  have "files (fst (persist_loop config0 env0 (initial disk0)
        ([Decoded (SCHEMA ''s'' (JObj []) (JArr []))]
         @ [Decoded (RECORD ''s'' [(''x'', JNum 1), (''y'', JNum 2)])])))
       (local_path config0 env0 ''s'')
     = Some [map fst [(''x'', JNum 1), (''y'', JNum 2)],
             record_row env0 (map fst [(''x'', JNum 1), (''y'', JNum 2)])
               [(''x'', JNum 1), (''y'', JNum 2)]]"
    by blast
  then have "files (fst (persist_loop config0 env0 (initial disk0)
        ([Decoded (SCHEMA ''s'' (JObj []) (JArr []))]
         @ [Decoded (RECORD ''s'' [(''x'', JNum 1), (''y'', JNum 2)])])))
       ''s-20240101T000000.csv''
     = Some [[''x'', ''y''], [''1'', ''2'']]"
    unfolding c d by simp
  moreover have "files (fst (persist_loop config0 env0 (initial disk_abc)
        ([Decoded (SCHEMA ''s'' (JObj []) (JArr []))]
         @ [Decoded (RECORD ''s'' [(''a'', JNum 1), (''b'', JNum 2), (''c'', JNum 3),
                                   (''d'', JNum 4)])])))
       ''s-20240101T000000.csv''
     = Some [[''a'', ''b'', ''c''], [''1'', ''2'', ''3'']]"
    by (simp add: run_simps)
  ultimately show ?thesis by simp
qed

text \<open>
  C3 fails on the code. Outside \<open>fixed_headers\<close>, the branch of lines 88 and 89 is
  taken whenever the stream already has an entry in \<open>headers\<close>, so from the second
  RECORD of a stream on, the header list is replaced by the field names of the record
  at hand. On the disk whose file holds \<open>a,b,c\<close>, the first record
  \<open>{a:1,b:2,c:3,d:4}\<close> gives the row \<open>1,2,3\<close> and the second, \<open>{a:5,b:6,c:7,d:8}\<close>, the
  row \<open>5,6,7,8\<close>; on a disk without the file, \<open>{x:1,y:2}\<close> and then \<open>{y:3,z:4}\<close> give the
  rows \<open>1,2\<close> and \<open>3,4\<close> under the header \<open>x,y\<close>.
\<close>

theorem header_replaced_by_later_record:
  "final_files (main config0 env0 remote0 disk_abc
     [Decoded (SCHEMA ''s'' (JObj []) (JArr [])),
      Decoded (RECORD ''s'' [(''a'', JNum 1), (''b'', JNum 2), (''c'', JNum 3), (''d'', JNum 4)]),
      Decoded (RECORD ''s'' [(''a'', JNum 5), (''b'', JNum 6), (''c'', JNum 7), (''d'', JNum 8)])])
     ''s-20240101T000000.csv''
   = Some [[''a'', ''b'', ''c''], [''1'', ''2'', ''3''], [''5'', ''6'', ''7'', ''8'']]
   \<and> final_files (main config0 env0 remote0 disk0
     [Decoded (SCHEMA ''s'' (JObj []) (JArr [])),
      Decoded (RECORD ''s'' [(''x'', JNum 1), (''y'', JNum 2)]),
      Decoded (RECORD ''s'' [(''y'', JNum 3), (''z'', JNum 4)])])
     ''s-20240101T000000.csv''
   = Some [[''x'', ''y''], [''1'', ''2''], [''3'', ''4'']]"
  by (simp add: run_simps)

text \<open>
  C7 fails on the code. The manifest keeps the bare name of line 69, and line 125 passes
  it to \<open>put\<close> as the local path, while the file was written at the path of line 71.
  With \<open>destination_path\<close> set to \<open>out\<close>, the run writes \<open>out/s-20240101T000000.csv\<close>,
  asks the session to copy \<open>s-20240101T000000.csv\<close>, which is no file, and ends with
  the error of the failed copy.
\<close>

theorem upload_ignores_destination_path:
  "final_files (main config_out env0 remote0 disk0
     [Decoded (SCHEMA ''s'' (JObj []) (JArr [])), Decoded (RECORD ''s'' [(''x'', JNum 1)])])
     ''out/s-20240101T000000.csv'' = Some [[''x''], [''1'']]
   \<and> final_files (main config_out env0 remote0 disk0
     [Decoded (SCHEMA ''s'' (JObj []) (JArr [])), Decoded (RECORD ''s'' [(''x'', JNum 1)])])
     ''s-20240101T000000.csv'' = None
   \<and> network (main config_out env0 remote0 disk0
     [Decoded (SCHEMA ''s'' (JObj []) (JArr [])), Decoded (RECORD ''s'' [(''x'', JNum 1)])])
     = [Connect (JStr ''files.example.org'') (JStr ''u'') (JStr ''secret'') True, OpenSftp True,
        Put ''s-20240101T000000.csv'' ''s-20240101T000000.csv'' False, CloseSftp, CloseClient]
   \<and> exit_error (main config_out env0 remote0 disk0
     [Decoded (SCHEMA ''s'' (JObj []) (JArr [])), Decoded (RECORD ''s'' [(''x'', JNum 1)])])
     = Some (FileNotFoundError ''s-20240101T000000.csv'')"
  by (simp add: run_simps)

section \<open>The manifest and the rows written\<close>

lemma file_rows_Some:
  "fs p = Some rows \<Longrightarrow> file_rows fs p = rows"
  by (simp add: file_rows_def)

lemma handle_message_grows:
  assumes h: "handle_message cfg ev st m = Inr st'"
  shows "(\<exists>added. file_rows (files st') p = file_rows (files st) p @ added)
       \<and> (files st p \<noteq> None \<longrightarrow> files st' p \<noteq> None)"
proof (cases m)
  case Malformed
  with h show ?thesis by simp
next
  case (Decoded msg)
  show ?thesis
  proof (cases msg)
    case (RECORD x r)
    with Decoded h have pr: "persist_record cfg ev st x r = Inr st'" by simp
    show ?thesis
    proof (cases "p = local_path cfg ev x")
      case True
      from persist_record_write [OF pr] obtain hs where
        "files st' (local_path cfg ev x) =
           Some (file_rows (files st) (local_path cfg ev x)
                 @ (if file_is_empty (files st) (local_path cfg ev x) then [hs] else [])
                 @ [record_row ev hs r])" by blast
      with True file_rows_Some [of "files st'" "local_path cfg ev x"] show ?thesis by simp
    next
      case False
      from persist_record_effect(2) [OF pr False] show ?thesis by (simp add: file_rows_def)
    qed
  qed (use Decoded h in auto)
qed

lemma persist_loop_grows:
  "persist_loop cfg ev st msgs = (st', None) \<Longrightarrow>
     (\<exists>added. file_rows (files st') p = file_rows (files st) p @ added)
   \<and> (files st p \<noteq> None \<longrightarrow> files st' p \<noteq> None)"
proof (induction msgs arbitrary: st)
  case Nil
  then show ?case by simp
next
  case (Cons m ms)
  from Cons.prems obtain st1 where
    h: "handle_message cfg ev st m = Inr st1" and r: "persist_loop cfg ev st1 ms = (st', None)"
    by (rule persist_loop_Cons_ok)
  from handle_message_grows [OF h, of p] obtain a1 where
    a1: "file_rows (files st1) p = file_rows (files st) p @ a1"
    and k1: "files st p \<noteq> None \<longrightarrow> files st1 p \<noteq> None" by blast
  from Cons.IH [OF r] obtain a2 where
    a2: "file_rows (files st') p = file_rows (files st1) p @ a2"
    and k2: "files st1 p \<noteq> None \<longrightarrow> files st' p \<noteq> None" by blast
  from a1 a2 have "file_rows (files st') p = file_rows (files st) p @ (a1 @ a2)" by simp
  with k1 k2 show ?case by blast
qed

lemma persist_loop_written:
  "persist_loop cfg ev st msgs = (st', None) \<Longrightarrow> Decoded (RECORD s r) \<in> set msgs \<Longrightarrow>
     (\<exists>hs mid after. file_rows (files st') (local_path cfg ev s) =
        file_rows (files st) (local_path cfg ev s) @ mid @ [record_row ev hs r] @ after)
   \<and> files st' (local_path cfg ev s) \<noteq> None"
proof (induction msgs arbitrary: st)
  case Nil
  then show ?case by simp
next
  case (Cons m ms)
  let ?p = "local_path cfg ev s"
  from Cons.prems(1) obtain st1 where
    h: "handle_message cfg ev st m = Inr st1" and l: "persist_loop cfg ev st1 ms = (st', None)"
    by (rule persist_loop_Cons_ok)
  show ?case
  proof (cases "m = Decoded (RECORD s r)")
    case True
    with h have pr: "persist_record cfg ev st s r = Inr st1" by simp
    from persist_record_write [OF pr] obtain hs where
      w: "files st1 ?p = Some (file_rows (files st) ?p
            @ (if file_is_empty (files st) ?p then [hs] else []) @ [record_row ev hs r])"
      by blast
    then have w': "file_rows (files st1) ?p = file_rows (files st) ?p
            @ (if file_is_empty (files st) ?p then [hs] else []) @ [record_row ev hs r]"
      using file_rows_Some [of "files st1" ?p] by simp
    from persist_loop_grows [OF l, of ?p] obtain a2 where
      a2: "file_rows (files st') ?p = file_rows (files st1) ?p @ a2"
      and k2: "files st1 ?p \<noteq> None \<longrightarrow> files st' ?p \<noteq> None" by blast
    from w' a2 have "file_rows (files st') ?p = file_rows (files st) ?p
            @ (if file_is_empty (files st) ?p then [hs] else []) @ [record_row ev hs r] @ a2"
      by simp
    moreover from w k2 have "files st' ?p \<noteq> None" by simp
    ultimately show ?thesis by blast
  next
    case False
    with Cons.prems(2) have "Decoded (RECORD s r) \<in> set ms" by simp
    from Cons.IH [OF l this] obtain hs mid after where
      i: "file_rows (files st') ?p = file_rows (files st1) ?p @ mid @ [record_row ev hs r] @ after"
      and k: "files st' ?p \<noteq> None" by blast
    from handle_message_grows [OF h, of ?p] obtain a1 where
      a1: "file_rows (files st1) ?p = file_rows (files st) ?p @ a1" by blast
    from i a1 have "file_rows (files st') ?p =
        file_rows (files st) ?p @ (a1 @ mid) @ [record_row ev hs r] @ after" by simp
    with k show ?thesis by blast
  qed
qed

lemma main_final_files:
  assumes "persist_loop cfg ev (initial fs) msgs = (st, None)"
  shows "final_files (main cfg ev rm fs msgs) = files st"
  using assms by (auto simp: main_def persist_messages_def split: option.splits prod.splits)

text \<open>
  C9, as the claim states it, fails in its last part: two stream names can resolve to
  one destination path, since \<open>os.path.join\<close> drops the directory before a name that
  starts with \<open>/\<close>. With \<open>destination_path\<close> set to \<open>/tmp\<close>, stream \<open>/tmp/a\<close> receives a
  SCHEMA only and stream \<open>a\<close> a RECORD; the run ends without error and the destination
  file of \<open>/tmp/a\<close>, absent before, now exists.
\<close>

theorem shared_destination_counterexample:
  "local_path config_tmp env0 ''/tmp/a'' = ''/tmp/a-20240101T000000.csv''
   \<and> disk0 ''/tmp/a-20240101T000000.csv'' = None
   \<and> exit_error (main config_tmp env0 remote0 disk0
        [Decoded (SCHEMA ''/tmp/a'' (JObj []) (JArr [])), Decoded (SCHEMA ''a'' (JObj []) (JArr [])),
         Decoded (RECORD ''a'' [(''x'', JNum 1)])]) = None
   \<and> final_files (main config_tmp env0 remote0 disk0
        [Decoded (SCHEMA ''/tmp/a'' (JObj []) (JArr [])), Decoded (SCHEMA ''a'' (JObj []) (JArr [])),
         Decoded (RECORD ''a'' [(''x'', JNum 1)])]) ''/tmp/a-20240101T000000.csv''
     = Some [[''x''], [''1'']]"
  by (simp add: run_simps)

text \<open>
  C9, amended: after a loop that ran to end-of-stream, a stream is a key of the manifest
  iff a RECORD for it was written, that is, iff the input holds a RECORD of the stream
  whose row stands in the stream's destination file after the rows the file had before
  the run; every RECORD of the input is written so; each stream of the manifest is
  mapped to the one name \<open><stream>-<timestamp>.csv\<close> and the keys are distinct. Every copy
  the dispatcher attempts is that of the name of a stream that had a RECORD, so a stream
  for which only SCHEMA messages (or no messages) arrive is never transferred. Every path
  whose file the run changed or created is the destination of a stream that had a
  RECORD, so such a stream has no destination file created unless its destination path
  is also that of a stream that had a RECORD.
\<close>

theorem manifest_streams:
  assumes "snd (persist_loop cfg ev (initial fs) msgs) = None"
  shows "(map_of (stream_2_filenames (fst (persist_loop cfg ev (initial fs) msgs))) s \<noteq> None
          \<longleftrightarrow> (\<exists>r hs mid after. Decoded (RECORD s r) \<in> set msgs
                \<and> file_rows (final_files (main cfg ev rm fs msgs)) (local_path cfg ev s)
                  = file_rows fs (local_path cfg ev s) @ mid @ [record_row ev hs r] @ after))
       \<and> (\<forall>r. Decoded (RECORD s r) \<in> set msgs \<longrightarrow>
            final_files (main cfg ev rm fs msgs) (local_path cfg ev s) \<noteq> None
            \<and> (\<exists>hs mid after.
                  file_rows (final_files (main cfg ev rm fs msgs)) (local_path cfg ev s)
                  = file_rows fs (local_path cfg ev s) @ mid @ [record_row ev hs r] @ after))
       \<and> map_of (stream_2_filenames (fst (persist_loop cfg ev (initial fs) msgs))) s =
           (if \<exists>r. Decoded (RECORD s r) \<in> set msgs then Some (stream_filename ev s) else None)
       \<and> distinct (map fst (stream_2_filenames (fst (persist_loop cfg ev (initial fs) msgs))))
       \<and> (\<forall>l r b. Put l r b \<in> set (network (main cfg ev rm fs msgs)) \<longrightarrow>
            (\<exists>x rec. Decoded (RECORD x rec) \<in> set msgs \<and> l = stream_filename ev x \<and> r = l))
       \<and> ((\<forall>r. Decoded (RECORD s r) \<notin> set msgs) \<longrightarrow>
            (\<forall>l r b. Put l r b \<in> set (network (main cfg ev rm fs msgs)) \<longrightarrow>
               l \<noteq> stream_filename ev s \<and> r \<noteq> stream_filename ev s))
       \<and> (\<forall>p. final_files (main cfg ev rm fs msgs) p \<noteq> fs p \<longrightarrow>
            (\<exists>x r. Decoded (RECORD x r) \<in> set msgs \<and> p = local_path cfg ev x))
       \<and> ((\<forall>r. Decoded (RECORD s r) \<notin> set msgs)
            \<and> (\<forall>x r. Decoded (RECORD x r) \<in> set msgs
                  \<longrightarrow> local_path cfg ev x \<noteq> local_path cfg ev s)
            \<longrightarrow> final_files (main cfg ev rm fs msgs) (local_path cfg ev s)
                = fs (local_path cfg ev s))"
proof -
  obtain st where l: "persist_loop cfg ev (initial fs) msgs = (st, None)"
    using assms by (cases "persist_loop cfg ev (initial fs) msgs") simp
  note inv = persist_loop_manifest [OF l]
  note f = main_final_files [OF l]
  have i0: "stream_2_filenames (initial fs) = []" "files (initial fs) = fs"
    by (simp_all add: initial_def)
  have 1: "map_of (stream_2_filenames st) s =
           (if \<exists>r. Decoded (RECORD s r) \<in> set msgs then Some (stream_filename ev s) else None)"
    using inv [of s] by (simp add: i0)
  have 2: "distinct (map fst (stream_2_filenames st))"
    using inv by (simp add: i0)
  have w: "files st (local_path cfg ev s) \<noteq> None
         \<and> (\<exists>hs mid after. file_rows (files st) (local_path cfg ev s)
              = file_rows fs (local_path cfg ev s) @ mid @ [record_row ev hs r] @ after)"
    if "Decoded (RECORD s r) \<in> set msgs" for r
    using persist_loop_written [OF l that] by (simp add: i0)
  have 0: "map_of (stream_2_filenames st) s \<noteq> None
          \<longleftrightarrow> (\<exists>r hs mid after. Decoded (RECORD s r) \<in> set msgs
                \<and> file_rows (files st) (local_path cfg ev s)
                  = file_rows fs (local_path cfg ev s) @ mid @ [record_row ev hs r] @ after)"
  proof
    assume "map_of (stream_2_filenames st) s \<noteq> None"
    with 1 obtain r where "Decoded (RECORD s r) \<in> set msgs" by (auto split: if_splits)
    with w [OF this] show "\<exists>r hs mid after. Decoded (RECORD s r) \<in> set msgs
                \<and> file_rows (files st) (local_path cfg ev s)
                  = file_rows fs (local_path cfg ev s) @ mid @ [record_row ev hs r] @ after"
      by blast
  next
    assume "\<exists>r hs mid after. Decoded (RECORD s r) \<in> set msgs
                \<and> file_rows (files st) (local_path cfg ev s)
                  = file_rows fs (local_path cfg ev s) @ mid @ [record_row ev hs r] @ after"
    then have "\<exists>r. Decoded (RECORD s r) \<in> set msgs" by blast
    with 1 show "map_of (stream_2_filenames st) s \<noteq> None" by simp
  qed
  have 3: "\<exists>x rec. Decoded (RECORD x rec) \<in> set msgs \<and> l = stream_filename ev x \<and> r = l"
    if "Put l r b \<in> set (network (main cfg ev rm fs msgs))" for l r b
  proof -
    from main_puts [OF that] l have "l \<in> snd ` set (stream_2_filenames st)" "r = l" by auto
    then obtain x where x: "(x, l) \<in> set (stream_2_filenames st)" by force
    with 2 have "map_of (stream_2_filenames st) x = Some l" by simp
    moreover have "map_of (stream_2_filenames st) x =
           (if \<exists>r. Decoded (RECORD x r) \<in> set msgs then Some (stream_filename ev x) else None)"
      using inv [of x] by (simp add: i0)
    ultimately have "(\<exists>r. Decoded (RECORD x r) \<in> set msgs) \<and> l = stream_filename ev x"
      by (auto split: if_splits)
    with \<open>r = l\<close> show ?thesis by blast
  qed
  have 4: "l \<noteq> stream_filename ev s \<and> r \<noteq> stream_filename ev s"
    if n: "\<forall>r. Decoded (RECORD s r) \<notin> set msgs"
      and p: "Put l r b \<in> set (network (main cfg ev rm fs msgs))" for l r b
  proof -
    from 3 [OF p] obtain x rec where
      x: "Decoded (RECORD x rec) \<in> set msgs" "l = stream_filename ev x" "r = l" by blast
    with n have "x \<noteq> s" by auto
    with x stream_filename_inj [of ev x s] show ?thesis by auto
  qed
  have 5: "\<exists>x r. Decoded (RECORD x r) \<in> set msgs \<and> p = local_path cfg ev x"
    if "files st p \<noteq> fs p" for p
    using inv [of s p] that by (simp add: i0)
  have 6: "files st (local_path cfg ev s) = fs (local_path cfg ev s)"
    if "\<forall>x r. Decoded (RECORD x r) \<in> set msgs \<longrightarrow> local_path cfg ev x \<noteq> local_path cfg ev s"
  proof (rule ccontr)
    assume "files st (local_path cfg ev s) \<noteq> fs (local_path cfg ev s)"
    from 5 [OF this] obtain x r where
      "Decoded (RECORD x r) \<in> set msgs" "local_path cfg ev s = local_path cfg ev x" by blast
    with that show False by auto
  qed
  from 0 w 1 2 3 4 5 6 show ?thesis
    unfolding l fst_conv f by blast
qed

text \<open>
  Stream \<open>a\<close> has two records and stream \<open>b\<close> a SCHEMA only: the manifest holds \<open>a\<close>
  alone, the file of \<open>a\<close> holds the header and both rows, the session copies the file of
  \<open>a\<close> alone, and there is no file for \<open>b\<close>.
\<close>

theorem manifest_streams_witness:
  "snd (persist_loop config_sftp env0 (initial disk0)
     [Decoded (SCHEMA ''a'' (JObj []) (JArr [])), Decoded (SCHEMA ''b'' (JObj []) (JArr [])),
      Decoded (RECORD ''a'' [(''x'', JNum 1)]), Decoded (RECORD ''a'' [(''x'', JNum 2)])]) = None
   \<and> stream_2_filenames (fst (persist_loop config_sftp env0 (initial disk0)
     [Decoded (SCHEMA ''a'' (JObj []) (JArr [])), Decoded (SCHEMA ''b'' (JObj []) (JArr [])),
      Decoded (RECORD ''a'' [(''x'', JNum 1)]), Decoded (RECORD ''a'' [(''x'', JNum 2)])]))
     = [(''a'', ''a-20240101T000000.csv'')]
   \<and> map_of (stream_2_filenames (fst (persist_loop config_sftp env0 (initial disk0)
     [Decoded (SCHEMA ''a'' (JObj []) (JArr [])), Decoded (SCHEMA ''b'' (JObj []) (JArr [])),
      Decoded (RECORD ''a'' [(''x'', JNum 1)]), Decoded (RECORD ''a'' [(''x'', JNum 2)])]))) ''b''
     = None
   \<and> final_files (main config_sftp env0 remote0 disk0
     [Decoded (SCHEMA ''a'' (JObj []) (JArr [])), Decoded (SCHEMA ''b'' (JObj []) (JArr [])),
      Decoded (RECORD ''a'' [(''x'', JNum 1)]), Decoded (RECORD ''a'' [(''x'', JNum 2)])])
      ''a-20240101T000000.csv'' = Some [[''x''], [''1''], [''2'']]
   \<and> network (main config_sftp env0 remote0 disk0
     [Decoded (SCHEMA ''a'' (JObj []) (JArr [])), Decoded (SCHEMA ''b'' (JObj []) (JArr [])),
      Decoded (RECORD ''a'' [(''x'', JNum 1)]), Decoded (RECORD ''a'' [(''x'', JNum 2)])])
     = [Connect (JStr ''files.example.org'') (JStr ''u'') (JStr ''secret'') True, OpenSftp True,
        Put ''a-20240101T000000.csv'' ''a-20240101T000000.csv'' True, CloseSftp, CloseClient]
   \<and> final_files (main config_sftp env0 remote0 disk0
     [Decoded (SCHEMA ''a'' (JObj []) (JArr [])), Decoded (SCHEMA ''b'' (JObj []) (JArr [])),
      Decoded (RECORD ''a'' [(''x'', JNum 1)]), Decoded (RECORD ''a'' [(''x'', JNum 2)])])
      ''b-20240101T000000.csv'' = None"
proof -
  let ?msgs = "[Decoded (SCHEMA ''a'' (JObj []) (JArr [])), Decoded (SCHEMA ''b'' (JObj []) (JArr [])),
      Decoded (RECORD ''a'' [(''x'', JNum 1)]), Decoded (RECORD ''a'' [(''x'', JNum 2)])]"
  have a: "snd (persist_loop config_sftp env0 (initial disk0) ?msgs) = None"
    by (simp add: run_simps)
  note T = manifest_streams [OF a, where s = "''b''" and rm = remote0]
  have n: "\<forall>r. Decoded (RECORD ''b'' r) \<notin> set ?msgs"
    by simp
  have p: "\<forall>x r. Decoded (RECORD x r) \<in> set ?msgs
             \<longrightarrow> local_path config_sftp env0 x \<noteq> local_path config_sftp env0 ''b''"
    by (auto simp: run_simps)
  have lp: "local_path config_sftp env0 ''b'' = ''b-20240101T000000.csv''"
    by (simp add: run_simps)
  from T [THEN conjunct2, THEN conjunct2, THEN conjunct1] n
  have b: "map_of (stream_2_filenames (fst (persist_loop config_sftp env0 (initial disk0) ?msgs))) ''b'' = None"
    by simp
  from T [THEN conjunct2, THEN conjunct2, THEN conjunct2, THEN conjunct2, THEN conjunct2,
          THEN conjunct2, THEN conjunct2] n p
  have "final_files (main config_sftp env0 remote0 disk0 ?msgs) (local_path config_sftp env0 ''b'')
        = disk0 (local_path config_sftp env0 ''b'')"
    by blast
  then have c: "final_files (main config_sftp env0 remote0 disk0 ?msgs) ''b-20240101T000000.csv'' = None"
    unfolding lp by (simp add: disk0_def)
  have "stream_2_filenames (fst (persist_loop config_sftp env0 (initial disk0) ?msgs))
     = [(''a'', ''a-20240101T000000.csv'')]"
    by (simp add: run_simps)
  moreover have "network (main config_sftp env0 remote0 disk0 ?msgs)
     = [Connect (JStr ''files.example.org'') (JStr ''u'') (JStr ''secret'') True, OpenSftp True,
        Put ''a-20240101T000000.csv'' ''a-20240101T000000.csv'' True, CloseSftp, CloseClient]"
    by (simp add: run_simps)
  moreover have "final_files (main config_sftp env0 remote0 disk0 ?msgs) ''a-20240101T000000.csv''
     = Some [[''x''], [''1''], [''2'']]"
    by (simp add: run_simps)
  ultimately show ?thesis using a b c by simp
qed

end
